theory Spec2Isabelle
  imports Complex_Main "HOL-Library.AList" "HOL-Library.Multiset"
begin

section \<open>Strings\<close>

text \<open>
  JavaScript strings are modelled as HOL strings, one character for each byte of the UTF-8
  encoding. On ASCII text a byte is a UTF-16 code unit and the definitions below are
  JavaScript's; every keyword and pattern of \<^verbatim>\<open>score.mjs\<close> is ASCII. Beyond ASCII
  they are not: \<open>toLowerCase\<close> lowers the letters A-Z only, the classes \<^verbatim>\<open>\s\<close> and
  \<^verbatim>\<open>.\<close> know the ASCII white space and line ends only, and a repetition count counts
  bytes where JavaScript counts code units. The property of the secret scan, which speaks
  of what the patterns find in any content, is therefore stated for ASCII contents.
\<close>

definition startsWith :: "string \<Rightarrow> string \<Rightarrow> bool" where
  "startsWith s p = (take (length p) s = p)"

definition endsWith :: "string \<Rightarrow> string \<Rightarrow> bool" where
  "endsWith s p = (length p \<le> length s \<and> drop (length s - length p) s = p)"

fun includes_str :: "string \<Rightarrow> string \<Rightarrow> bool" where
  "includes_str [] p = (p = [])"
| "includes_str (c # cs) p = (startsWith (c # cs) p \<or> includes_str cs p)"

definition lower_char :: "char \<Rightarrow> char" where
  "lower_char c =
     (case map_of (zip ''ABCDEFGHIJKLMNOPQRSTUVWXYZ'' ''abcdefghijklmnopqrstuvwxyz'') c of
        Some d \<Rightarrow> d
      | None \<Rightarrow> c)"

definition toLowerCase :: "string \<Rightarrow> string" where
  "toLowerCase s = map lower_char s"

text \<open>\<^verbatim>\<open>!content\<close> for a value that is \<^verbatim>\<open>null\<close> or a string: true for
  \<^verbatim>\<open>null\<close> and for the empty string.\<close>

definition falsy :: "string option \<Rightarrow> bool" where
  "falsy v = (case v of None \<Rightarrow> True | Some s \<Rightarrow> s = [])"

text \<open>\<^verbatim>\<open>xs.join(sep)\<close>.\<close>

fun join :: "string \<Rightarrow> string list \<Rightarrow> string" where
  "join sep [] = []"
| "join sep [x] = x"
| "join sep (x # y # ys) = x @ sep @ join sep (y # ys)"

text \<open>\<^verbatim>\<open>s.split(sep)\<close> for a one-character separator: the list is never empty.\<close>

fun split_str :: "char \<Rightarrow> string \<Rightarrow> string list" where
  "split_str sep [] = [[]]"
| "split_str sep (c # cs) =
     (if c = sep then [] # split_str sep cs
      else (case split_str sep cs of [] \<Rightarrow> [[c]] | x # xs \<Rightarrow> (c # x) # xs))"

text \<open>A number inside a template literal: its decimal digits (\<open>digit\<close> is only applied
  below 10).\<close>

definition digit :: "nat \<Rightarrow> char" where
  "digit d = ''0123456789'' ! d"

function show_nat :: "nat \<Rightarrow> string" where
  "show_nat n = (if n < 10 then [digit n] else show_nat (n div 10) @ [digit (n mod 10)])"
  by pat_completeness auto
termination
  by (relation "measure id") auto

text \<open>
  \<^verbatim>\<open>x.toFixed(1)\<close>: one decimal, the nearest tenth and the larger one on a tie. The
  model rounds the exact quotient; JavaScript rounds the double nearest to it, so the last
  digit can differ on a tie (for 0.15 the model gives 0.2 and JavaScript 0.1). Only the
  \<open>detail\<close> text of \<open>pipeline_fast\<close> uses it.
\<close>

definition toFixed1 :: "rat \<Rightarrow> string" where
  "toFixed1 x =
     (let a = \<bar>x\<bar>; n = nat \<lfloor>a * 10 + 1 / 2\<rfloor>
      in (if x < 0 then ''-'' else []) @ show_nat (n div 10) @ ''.'' @ [digit (n mod 10)])"

section \<open>Regular expressions\<close>

text \<open>
  The patterns of \<^verbatim>\<open>score.mjs\<close> use alternation, classes, \<^verbatim>\<open>?\<close>,
  \<^verbatim>\<open>*\<close>, \<^verbatim>\<open>+\<close>, \<^verbatim>\<open>{6,}\<close> and a final \<^verbatim>\<open>$\<close>: they are regular, so
  \<^verbatim>\<open>test\<close> and \<^verbatim>\<open>match\<close> succeed exactly when some substring is in the
  pattern's language. The matcher below decides that with derivatives.
\<close>

datatype rx = Never | Empty | Atom "char \<Rightarrow> bool" | Alt rx rx | Seq rx rx | Star rx

fun nullable :: "rx \<Rightarrow> bool" where
  "nullable Never = False"
| "nullable Empty = True"
| "nullable (Atom p) = False"
| "nullable (Alt r s) = (nullable r \<or> nullable s)"
| "nullable (Seq r s) = (nullable r \<and> nullable s)"
| "nullable (Star r) = True"

text \<open>Union and concatenation that drop an operand that matches nothing.\<close>

fun alt :: "rx \<Rightarrow> rx \<Rightarrow> rx" where
  "alt Never s = s"
| "alt r Never = r"
| "alt r s = Alt r s"

fun seq :: "rx \<Rightarrow> rx \<Rightarrow> rx" where
  "seq Never s = Never"
| "seq Empty s = s"
| "seq r s = Seq r s"

fun deriv :: "char \<Rightarrow> rx \<Rightarrow> rx" where
  "deriv c Never = Never"
| "deriv c Empty = Never"
| "deriv c (Atom p) = (if p c then Empty else Never)"
| "deriv c (Alt r s) = alt (deriv c r) (deriv c s)"
| "deriv c (Seq r s) =
     (if nullable r then alt (seq (deriv c r) s) (deriv c s) else seq (deriv c r) s)"
| "deriv c (Star r) = seq (deriv c r) (Star r)"

definition matches :: "rx \<Rightarrow> string \<Rightarrow> bool" where
  "matches r s = nullable (fold deriv s r)"

definition any_char :: rx where
  "any_char = Atom (\<lambda>c. True)"

text \<open>\<^verbatim>\<open>.\<close> matches every character but a line terminator (line feed and carriage
  return; JavaScript also excludes U+2028 and U+2029, which are not ASCII).\<close>

definition dot :: rx where
  "dot = Atom (\<lambda>c. c \<noteq> CHR 0x0A \<and> c \<noteq> CHR 0x0D)"

text \<open>\<^verbatim>\<open>\s\<close>: tab, line feed, vertical tab, form feed, carriage return, space. These
  are the ASCII members of the class; JavaScript's also holds U+00A0, U+FEFF and the other
  Unicode spaces and line separators.\<close>

definition space :: rx where
  "space = Atom (\<lambda>c. c \<in> set [CHR 0x09, CHR 0x0A, CHR 0x0B, CHR 0x0C, CHR 0x0D, CHR 0x20])"

definition one_of :: "string \<Rightarrow> rx" where
  "one_of cs = Atom (\<lambda>c. c \<in> set cs)"

definition none_of :: "string \<Rightarrow> rx" where
  "none_of cs = Atom (\<lambda>c. c \<notin> set cs)"

text \<open>\<^verbatim>\<open>[a-zA-Z0-9]\<close>.\<close>

definition alnum :: rx where
  "alnum = one_of (''abcdefghijklmnopqrstuvwxyz'' @ ''ABCDEFGHIJKLMNOPQRSTUVWXYZ'' @ ''0123456789'')"

fun seqs :: "rx list \<Rightarrow> rx" where
  "seqs [] = Empty"
| "seqs [r] = r"
| "seqs (r # rs) = Seq r (seqs rs)"

fun alts :: "rx list \<Rightarrow> rx" where
  "alts [] = Never"
| "alts [r] = r"
| "alts (r # rs) = Alt r (alts rs)"

text \<open>A literal, and a literal under the \<^verbatim>\<open>i\<close> flag.\<close>

definition lit :: "string \<Rightarrow> rx" where
  "lit s = seqs (map (\<lambda>x. Atom (\<lambda>c. c = x)) s)"

definition lit_i :: "string \<Rightarrow> rx" where
  "lit_i s = seqs (map (\<lambda>x. Atom (\<lambda>c. lower_char c = lower_char x)) s)"

definition optional :: "rx \<Rightarrow> rx" where
  "optional r = Alt r Empty"

definition one_or_more :: "rx \<Rightarrow> rx" where
  "one_or_more r = Seq r (Star r)"

text \<open>\<^verbatim>\<open>r{n,}\<close>.\<close>

definition at_least :: "nat \<Rightarrow> rx \<Rightarrow> rx" where
  "at_least n r = seqs (replicate n r @ [Star r])"

text \<open>\<^verbatim>\<open>re.test(s)\<close>: some substring of \<open>s\<close> matches.\<close>

definition rx_test :: "rx \<Rightarrow> string \<Rightarrow> bool" where
  "rx_test r s = matches (Seq (Star any_char) (Seq r (Star any_char))) s"

text \<open>\<^verbatim>\<open>s.match(re)\<close> for a pattern that ends with \<^verbatim>\<open>$\<close> (no \<^verbatim>\<open>m\<close> flag):
  some suffix of \<open>s\<close> matches.\<close>

definition rx_match_end :: "rx \<Rightarrow> string \<Rightarrow> bool" where
  "rx_match_end r s = matches (Seq (Star any_char) r) s"

text \<open>
  What the matcher decides: the language of a pattern, as a set of strings. The lemmas
  \<open>matches_lang\<close>, \<open>rx_test_lang\<close> and \<open>rx_match_end_lang\<close> below relate the two.
\<close>

definition concat_lang :: "string set \<Rightarrow> string set \<Rightarrow> string set" where
  "concat_lang A B = {u @ v | u v. u \<in> A \<and> v \<in> B}"

inductive_set repeat_lang :: "string set \<Rightarrow> string set" for A :: "string set" where
  repeat_none: "[] \<in> repeat_lang A"
| repeat_more: "u \<in> A \<Longrightarrow> v \<in> repeat_lang A \<Longrightarrow> u @ v \<in> repeat_lang A"

fun lang :: "rx \<Rightarrow> string set" where
  "lang Never = {}"
| "lang Empty = {[]}"
| "lang (Atom p) = {[c] | c. p c}"
| "lang (Alt r s) = lang r \<union> lang s"
| "lang (Seq r s) = concat_lang (lang r) (lang s)"
| "lang (Star r) = repeat_lang (lang r)"

section \<open>The remote code host\<close>

text \<open>
  An \<^verbatim>\<open>async\<close> call either resolves to a value (\<open>Inr\<close>) or throws an error with a
  message (\<open>Inl\<close>); \<open>await\<close> passes a thrown error on to the caller.
\<close>

type_synonym 'a promise = "string + 'a"

definition await :: "'a promise \<Rightarrow> ('a \<Rightarrow> 'b promise) \<Rightarrow> 'b promise" where
  "await m f = (case m of Inl e \<Rightarrow> Inl e | Inr x \<Rightarrow> f x)"

record tree_entry =
  path :: string

record workflow_run =
  run_id :: nat
  conclusion :: "string option"
  status :: string
  run_number :: nat
  created_at :: int
  updated_at :: int

record job =
  job_name :: string
  job_conclusion :: "string option"

record artifact =
  artifact_name :: string

record protection =
  message :: "string option"
  required_pull_request_reviews :: bool

text \<open>
  What the code host answers, per owner and repository. A request that throws (the network
  fails, the body is not JSON) is \<open>Inl\<close>; a response that is not \<^verbatim>\<open>ok\<close>, or that lacks
  the field the probes read, is \<open>Inr None\<close>. \<open>runs\<close> is the history of workflow runs on
  the branch \<^verbatim>\<open>main\<close>, newest first; timestamps are milliseconds.
  \<open>http\<close> is \<^verbatim>\<open>fetch(url)\<close> under the ten-second abort: the status of the response,
  or the error thrown (the abort included). The answers stay the same during a run.
\<close>

record remote =
  trees :: "string \<Rightarrow> string \<Rightarrow> tree_entry list option promise"
  raw_files :: "string \<Rightarrow> string \<Rightarrow> string \<Rightarrow> string option promise"
  runs :: "string \<Rightarrow> string \<Rightarrow> workflow_run list option promise"
  run_jobs :: "string \<Rightarrow> string \<Rightarrow> nat \<Rightarrow> job list option promise"
  run_artifacts :: "string \<Rightarrow> string \<Rightarrow> nat \<Rightarrow> artifact list option promise"
  packages :: "string \<Rightarrow> string \<Rightarrow> string list option promise"
  branch_protection :: "string \<Rightarrow> string \<Rightarrow> protection option promise"
  http :: "string \<Rightarrow> nat promise"

text \<open>\<^verbatim>\<open>gh(`/repos/${owner}/${repo}/git/trees/main?recursive=1`)\<close>, read through
  \<^verbatim>\<open>tree?.tree\<close>.\<close>

definition gh_tree :: "remote \<Rightarrow> string \<Rightarrow> string \<Rightarrow> tree_entry list option promise" where
  "gh_tree w owner name = trees w owner name"

definition ghRaw :: "remote \<Rightarrow> string \<Rightarrow> string \<Rightarrow> string \<Rightarrow> string option promise" where
  "ghRaw w owner name p = raw_files w owner name p"

text \<open>
  \<^verbatim>\<open>gh(`/repos/${owner}/${repo}/actions/runs?branch=main&per_page=n`)\<close>, with
  \<^verbatim>\<open>&status=success\<close> when \<open>only_success\<close>: the host answers with the newest \<open>n\<close>
  runs of the branch, of those that concluded with success when the filter is given.
\<close>

definition gh_runs ::
  "remote \<Rightarrow> string \<Rightarrow> string \<Rightarrow> bool \<Rightarrow> nat \<Rightarrow> workflow_run list option promise" where
  "gh_runs w owner name only_success per_page =
     await (runs w owner name) (\<lambda>r.
       Inr (map_option
         (\<lambda>rs. take per_page
            (if only_success then filter (\<lambda>x. conclusion x = Some ''success'') rs else rs)) r))"

section \<open>Verdicts and the roster\<close>

record verdict =
  pass :: bool
  detail :: string

record probe_result = verdict +
  points :: nat
  label :: string
  category :: string

record roster_record =
  team :: string
  members :: "string list"
  repo :: string
  deploy_url :: "string option"

record check =
  check_points :: nat
  check_category :: string
  check_label :: string
  run :: "remote \<Rightarrow> string \<Rightarrow> string \<Rightarrow> roster_record \<Rightarrow> verdict promise"

section \<open>The checks\<close>

text \<open>The filter every workflow probe applies to the tree.\<close>

definition is_workflow :: "tree_entry \<Rightarrow> bool" where
  "is_workflow f = (startsWith (path f) ''.github/workflows/'' \<and> endsWith (path f) ''.yml'')"

text \<open>
  The loop of the workflow probes: fetch each workflow file in turn, skip one that is
  missing or empty, and stop at the first whose content satisfies \<open>cond\<close>.
\<close>

fun first_workflow ::
  "remote \<Rightarrow> string \<Rightarrow> string \<Rightarrow> (string \<Rightarrow> bool) \<Rightarrow> tree_entry list
     \<Rightarrow> (tree_entry \<times> string) option promise" where
  "first_workflow w owner name cond [] = Inr None"
| "first_workflow w owner name cond (wfile # wfs) =
     (case ghRaw w owner name (path wfile) of
        Inl e \<Rightarrow> Inl e
      | Inr content \<Rightarrow>
          (case content of
             None \<Rightarrow> first_workflow w owner name cond wfs
           | Some c \<Rightarrow>
               if c = [] then first_workflow w owner name cond wfs
               else if cond c then Inr (Some (wfile, c))
               else first_workflow w owner name cond wfs))"

definition pipeline_exists_run ::
  "remote \<Rightarrow> string \<Rightarrow> string \<Rightarrow> roster_record \<Rightarrow> verdict promise" where
  "pipeline_exists_run w owner name t =
     await (gh_tree w owner name) (\<lambda>tree.
       case tree of
         None \<Rightarrow> Inr \<lparr>pass = False, detail = ''Cannot read repo tree''\<rparr>
       | Some tr \<Rightarrow>
           let wfs = filter is_workflow tr
           in Inr \<lparr>pass = (length wfs > 0), detail = show_nat (length wfs) @ '' workflow(s) found''\<rparr>)"

definition pipeline_green_run ::
  "remote \<Rightarrow> string \<Rightarrow> string \<Rightarrow> roster_record \<Rightarrow> verdict promise" where
  "pipeline_green_run w owner name t =
     await (gh_runs w owner name False 1) (\<lambda>rs.
       case rs of
         None \<Rightarrow> Inr \<lparr>pass = False, detail = ''No runs found''\<rparr>
       | Some [] \<Rightarrow> Inr \<lparr>pass = False, detail = ''No runs found''\<rparr>
       | Some (last_run # _) \<Rightarrow>
           Inr \<lparr>pass = (conclusion last_run = Some ''success''),
                detail = ''Last run: ''
                  @ (case conclusion last_run of
                       None \<Rightarrow> status last_run
                     | Some c \<Rightarrow> if c = [] then status last_run else c)
                  @ '' (#'' @ show_nat (run_number last_run) @ '')''\<rparr>)"

definition lint_cond :: "string \<Rightarrow> bool" where
  "lint_cond content =
     (let lower = toLowerCase content
      in includes_str lower ''lint'' \<or> includes_str lower ''ruff'' \<or> includes_str lower ''flake8''
         \<or> includes_str lower ''pylint'' \<or> includes_str lower ''eslint''
         \<or> includes_str lower ''prettier'')"

definition lint_pass_run ::
  "remote \<Rightarrow> string \<Rightarrow> string \<Rightarrow> roster_record \<Rightarrow> verdict promise" where
  "lint_pass_run w owner name t =
     await (gh_tree w owner name) (\<lambda>tree.
       case tree of
         None \<Rightarrow> Inr \<lparr>pass = False, detail = ''Cannot read repo''\<rparr>
       | Some tr \<Rightarrow>
           await (first_workflow w owner name lint_cond (filter is_workflow tr)) (\<lambda>hit.
             case hit of
               Some (wfile, c) \<Rightarrow> Inr \<lparr>pass = True, detail = ''Lint found in '' @ path wfile\<rparr>
             | None \<Rightarrow> Inr \<lparr>pass = False, detail = ''No lint step found in workflows''\<rparr>))"

text \<open>The files the secret scan reads and the patterns it tests, in the source's order.
  \<^verbatim>\<open>{6,}\<close> counts the characters of the model, which are JavaScript's code units on
  ASCII text.\<close>

definition secret_files :: "string list" where
  "secret_files = [''main.py'', ''app.js'', ''database/database.py'', ''database/database.js'']"

definition quote :: rx where
  "quote = one_of [CHR 0x22, CHR 0x27]"

definition not_quote :: rx where
  "not_quote = none_of [CHR 0x22, CHR 0x27]"

definition secret_patterns :: "rx list" where
  "secret_patterns =
     [seqs [alts [lit_i ''SECRET_KEY'', lit_i ''API_KEY'', lit_i ''DB_PASSWORD'', lit_i ''PASSWORD''],
            Star space, lit_i ''='', Star space, quote, at_least 6 not_quote, quote],
      Seq (lit ''sk-proj-'') (one_or_more alnum),
      lit_i ''super_secret'',
      lit ''admin123'']"

fun scan_secrets :: "remote \<Rightarrow> string \<Rightarrow> string \<Rightarrow> string list \<Rightarrow> verdict promise" where
  "scan_secrets w owner name [] =
     Inr \<lparr>pass = True, detail = ''No hardcoded secrets detected''\<rparr>"
| "scan_secrets w owner name (file # files) =
     (case ghRaw w owner name file of
        Inl e \<Rightarrow> Inl e
      | Inr content \<Rightarrow>
          (case content of
             None \<Rightarrow> scan_secrets w owner name files
           | Some c \<Rightarrow>
               if c = [] then scan_secrets w owner name files
               else if list_ex (\<lambda>p. rx_test p c) secret_patterns
                 then Inr \<lparr>pass = False, detail = ''Secret found in '' @ file\<rparr>
               else scan_secrets w owner name files))"

definition no_secrets_in_code_run ::
  "remote \<Rightarrow> string \<Rightarrow> string \<Rightarrow> roster_record \<Rightarrow> verdict promise" where
  "no_secrets_in_code_run w owner name t = scan_secrets w owner name secret_files"

text \<open>The four path patterns of \<open>tests_exist\<close>, all under the \<^verbatim>\<open>i\<close> flag.\<close>

definition one_of_i :: "string \<Rightarrow> rx" where
  "one_of_i cs = Atom (\<lambda>c. lower_char c \<in> set (map lower_char cs))"

definition is_test_file :: "tree_entry \<Rightarrow> bool" where
  "is_test_file f =
     (rx_match_end (seqs [lit_i ''test'', optional (one_of_i ''_s''), Star dot, lit_i ''.'',
                          alts [lit_i ''py'', lit_i ''js'', lit_i ''ts'']]) (path f)
      \<or> rx_match_end (seqs [Star dot, lit_i ''.test.'', alts [lit_i ''js'', lit_i ''ts'']]) (path f)
      \<or> rx_match_end (seqs [Star dot, lit_i ''.spec.'', alts [lit_i ''js'', lit_i ''ts'']]) (path f)
      \<or> rx_match_end (seqs [Star dot, lit_i ''_test.py'']) (path f))"

definition tests_exist_cond :: "string \<Rightarrow> bool" where
  "tests_exist_cond content =
     (let lower = toLowerCase content
      in includes_str lower ''pytest'' \<or> includes_str lower ''jest'' \<or> includes_str lower ''vitest''
         \<or> includes_str lower ''npm test'' \<or> includes_str lower ''npm run test'')"

definition tests_exist_run ::
  "remote \<Rightarrow> string \<Rightarrow> string \<Rightarrow> roster_record \<Rightarrow> verdict promise" where
  "tests_exist_run w owner name t =
     await (gh_tree w owner name) (\<lambda>tree.
       case tree of
         None \<Rightarrow> Inr \<lparr>pass = False, detail = ''Cannot read repo''\<rparr>
       | Some tr \<Rightarrow>
           let testFiles = filter is_test_file tr
           in if length testFiles = 0 then Inr \<lparr>pass = False, detail = ''No test files found''\<rparr>
              else
                await (first_workflow w owner name tests_exist_cond (filter is_workflow tr)) (\<lambda>hit.
                  case hit of
                    Some _ \<Rightarrow>
                      Inr \<lparr>pass = True,
                           detail = show_nat (length testFiles) @ '' test file(s), tests run in CI''\<rparr>
                  | None \<Rightarrow>
                      Inr \<lparr>pass = False,
                           detail = show_nat (length testFiles) @ '' test file(s) but not run in CI''\<rparr>))"

definition gh_jobs :: "remote \<Rightarrow> string \<Rightarrow> string \<Rightarrow> nat \<Rightarrow> job list option promise" where
  "gh_jobs w owner name rid = run_jobs w owner name rid"

definition is_test_job :: "job \<Rightarrow> bool" where
  "is_test_job j =
     (let n = toLowerCase (job_name j)
      in includes_str n ''test'' \<or> includes_str n ''ci'' \<or> includes_str n ''build'')"

text \<open>\<^verbatim>\<open>${testJob.conclusion}\<close>: a \<^verbatim>\<open>null\<close> conclusion prints as \<^verbatim>\<open>null\<close>.\<close>

definition show_conclusion :: "string option \<Rightarrow> string" where
  "show_conclusion c = (case c of None \<Rightarrow> ''null'' | Some s \<Rightarrow> s)"

definition tests_pass_run ::
  "remote \<Rightarrow> string \<Rightarrow> string \<Rightarrow> roster_record \<Rightarrow> verdict promise" where
  "tests_pass_run w owner name t =
     await (gh_runs w owner name False 1) (\<lambda>rs.
       case rs of
         None \<Rightarrow> Inr \<lparr>pass = False, detail = ''No runs''\<rparr>
       | Some [] \<Rightarrow> Inr \<lparr>pass = False, detail = ''No runs''\<rparr>
       | Some (last_run # _) \<Rightarrow>
           if conclusion last_run \<noteq> Some ''success''
           then Inr \<lparr>pass = False, detail = ''Pipeline not green''\<rparr>
           else
             await (gh_jobs w owner name (run_id last_run)) (\<lambda>jobs.
               case jobs of
                 None \<Rightarrow> Inr \<lparr>pass = False, detail = ''Cannot read jobs''\<rparr>
               | Some js \<Rightarrow>
                   (case find is_test_job js of
                      None \<Rightarrow> Inr \<lparr>pass = False, detail = ''No test job found''\<rparr>
                    | Some testJob \<Rightarrow>
                        Inr \<lparr>pass = (job_conclusion testJob = Some ''success''),
                             detail = ''Job '' @ [CHR 0x22] @ job_name testJob @ [CHR 0x22] @ '': ''
                               @ show_conclusion (job_conclusion testJob)\<rparr>)))"

definition gh_artifacts ::
  "remote \<Rightarrow> string \<Rightarrow> string \<Rightarrow> nat \<Rightarrow> artifact list option promise" where
  "gh_artifacts w owner name rid = run_artifacts w owner name rid"

definition coverage_cond :: "string \<Rightarrow> bool" where
  "coverage_cond content =
     (includes_str content ''--cov'' \<or> includes_str content ''coverage''
      \<or> includes_str content ''--coverage'')"

definition is_cov_artifact :: "artifact \<Rightarrow> bool" where
  "is_cov_artifact a =
     (includes_str (toLowerCase (artifact_name a)) ''coverage''
      \<or> includes_str (toLowerCase (artifact_name a)) ''cov'')"

text \<open>The check mark and the cross of the \<open>detail\<close> texts, and the arrow, as UTF-8.\<close>

definition check_mark :: string where
  "check_mark = [CHR 0xE2, CHR 0x9C, CHR 0x85]"

definition cross_mark :: string where
  "cross_mark = [CHR 0xE2, CHR 0x9D, CHR 0x8C]"

definition arrow :: string where
  "arrow = [CHR 0xE2, CHR 0x86, CHR 0x92]"

definition coverage_70_run ::
  "remote \<Rightarrow> string \<Rightarrow> string \<Rightarrow> roster_record \<Rightarrow> verdict promise" where
  "coverage_70_run w owner name t =
     await (gh_tree w owner name) (\<lambda>tree.
       case tree of
         None \<Rightarrow> Inr \<lparr>pass = False, detail = ''Cannot read repo''\<rparr>
       | Some tr \<Rightarrow>
           await (first_workflow w owner name coverage_cond (filter is_workflow tr)) (\<lambda>hit.
             let hasCoverage = (hit \<noteq> None)
             in if \<not> hasCoverage
                then Inr \<lparr>pass = False, detail = ''No coverage step found in CI''\<rparr>
                else
                  await (gh_runs w owner name False 1) (\<lambda>rs.
                    case rs of
                      None \<Rightarrow> Inr \<lparr>pass = False, detail = ''No runs''\<rparr>
                    | Some [] \<Rightarrow> Inr \<lparr>pass = False, detail = ''No runs''\<rparr>
                    | Some (r0 # _) \<Rightarrow>
                        await (gh_artifacts w owner name (run_id r0)) (\<lambda>artifacts.
                          let covArtifact =
                                (case artifacts of
                                   None \<Rightarrow> None
                                 | Some arts \<Rightarrow> find is_cov_artifact arts);
                              isGreen = (conclusion r0 = Some ''success'')
                          in Inr \<lparr>pass = (hasCoverage \<and> isGreen),
                                  detail =
                                    (if hasCoverage
                                     then ''Coverage in CI, pipeline ''
                                       @ (if isGreen then ''green '' @ check_mark
                                          else ''red '' @ cross_mark)
                                       @ (if covArtifact \<noteq> None then '', artifact found'' else [])
                                     else ''No coverage'')\<rparr>))))"

definition dockerfile_exists_run ::
  "remote \<Rightarrow> string \<Rightarrow> string \<Rightarrow> roster_record \<Rightarrow> verdict promise" where
  "dockerfile_exists_run w owner name t =
     await (ghRaw w owner name ''Dockerfile'') (\<lambda>content.
       Inr \<lparr>pass = (\<not> falsy content),
            detail = (if \<not> falsy content then ''Dockerfile found'' else ''No Dockerfile at root'')\<rparr>)"

definition docker_cond :: "string \<Rightarrow> bool" where
  "docker_cond content =
     (includes_str content ''docker''
      \<and> (includes_str content ''build'' \<or> includes_str content ''build-push''))"

definition docker_builds_run ::
  "remote \<Rightarrow> string \<Rightarrow> string \<Rightarrow> roster_record \<Rightarrow> verdict promise" where
  "docker_builds_run w owner name t =
     await (gh_tree w owner name) (\<lambda>tree.
       case tree of
         None \<Rightarrow> Inr \<lparr>pass = False, detail = ''Cannot read repo''\<rparr>
       | Some tr \<Rightarrow>
           await (first_workflow w owner name docker_cond (filter is_workflow tr)) (\<lambda>hit.
             case hit of
               Some (wfile, c) \<Rightarrow> Inr \<lparr>pass = True, detail = ''Docker build in '' @ path wfile\<rparr>
             | None \<Rightarrow> Inr \<lparr>pass = False, detail = ''No docker build step in CI''\<rparr>))"

definition security_keywords :: "string list" where
  "security_keywords =
     [''trivy'', ''bandit'', ''snyk'', ''codeql'', ''npm audit'', ''pip-audit'', ''safety'',
      ''gitleaks'', ''semgrep'', ''grype'']"

text \<open>\<^verbatim>\<open>keywords.filter((k) => lower.includes(k))\<close>.\<close>

definition found_keywords :: "string list \<Rightarrow> string \<Rightarrow> string list" where
  "found_keywords keywords content =
     (let lower = toLowerCase content in filter (\<lambda>k. includes_str lower k) keywords)"

definition security_scan_run ::
  "remote \<Rightarrow> string \<Rightarrow> string \<Rightarrow> roster_record \<Rightarrow> verdict promise" where
  "security_scan_run w owner name t =
     await (gh_tree w owner name) (\<lambda>tree.
       case tree of
         None \<Rightarrow> Inr \<lparr>pass = False, detail = ''Cannot read repo''\<rparr>
       | Some tr \<Rightarrow>
           await (first_workflow w owner name
                    (\<lambda>c. length (found_keywords security_keywords c) > 0)
                    (filter is_workflow tr)) (\<lambda>hit.
             case hit of
               Some (wfile, c) \<Rightarrow>
                 Inr \<lparr>pass = True,
                      detail = ''Found: '' @ join '', '' (found_keywords security_keywords c)
                        @ '' in '' @ path wfile\<rparr>
             | None \<Rightarrow> Inr \<lparr>pass = False, detail = ''No security scan found in workflows''\<rparr>))"

definition gh_packages :: "remote \<Rightarrow> string \<Rightarrow> string \<Rightarrow> string list option promise" where
  "gh_packages w owner name = packages w owner name"

definition ghcr_cond :: "string \<Rightarrow> bool" where
  "ghcr_cond content = (includes_str content ''ghcr.io'' \<and> includes_str content ''push'')"

definition ghcr_published_run ::
  "remote \<Rightarrow> string \<Rightarrow> string \<Rightarrow> roster_record \<Rightarrow> verdict promise" where
  "ghcr_published_run w owner name t =
     await (gh_packages w owner name) (\<lambda>pkgs.
       let n = (case pkgs of None \<Rightarrow> 0 | Some ps \<Rightarrow> length ps)
       in if pkgs \<noteq> None \<and> n > 0
       then Inr \<lparr>pass = True, detail = show_nat n @ '' package(s) published''\<rparr>
       else
         await (gh_tree w owner name) (\<lambda>tree.
           case tree of
             None \<Rightarrow> Inr \<lparr>pass = False, detail = ''No packages found''\<rparr>
           | Some tr \<Rightarrow>
               await (first_workflow w owner name ghcr_cond (filter is_workflow tr)) (\<lambda>hit.
                 case hit of
                   Some (wfile, c) \<Rightarrow>
                     Inr \<lparr>pass = True, detail = ''GHCR push configured in '' @ path wfile\<rparr>
                 | None \<Rightarrow> Inr \<lparr>pass = False, detail = ''No container packages found''\<rparr>)))"

definition quality_keywords :: "string list" where
  "quality_keywords = [''sonar'', ''codeclimate'', ''codecov'', ''quality'']"

definition is_sonar_file :: "tree_entry \<Rightarrow> bool" where
  "is_sonar_file f =
     (includes_str (path f) ''sonar-project.properties'' \<or> includes_str (path f) ''sonarcloud'')"

definition quality_gate_run ::
  "remote \<Rightarrow> string \<Rightarrow> string \<Rightarrow> roster_record \<Rightarrow> verdict promise" where
  "quality_gate_run w owner name t =
     await (gh_tree w owner name) (\<lambda>tree.
       case tree of
         None \<Rightarrow> Inr \<lparr>pass = False, detail = ''Cannot read repo''\<rparr>
       | Some tr \<Rightarrow>
           let sonarFiles = filter is_sonar_file tr
           in await (first_workflow w owner name
                       (\<lambda>c. length (found_keywords quality_keywords c) > 0)
                       (filter is_workflow tr)) (\<lambda>hit.
                case hit of
                  Some (wfile, c) \<Rightarrow>
                    Inr \<lparr>pass = True,
                         detail = ''Found: '' @ join '', '' (found_keywords quality_keywords c)\<rparr>
                | None \<Rightarrow>
                    if length sonarFiles > 0
                    then Inr \<lparr>pass = True, detail = ''Sonar config found''\<rparr>
                    else Inr \<lparr>pass = False, detail = ''No quality gate configured''\<rparr>))"

text \<open>
  \<open>deployed\<close> reads the roster record only. \<^verbatim>\<open>res.ok\<close> is a status from 200 to 299;
  an error thrown by \<^verbatim>\<open>fetch\<close> (the abort after ten seconds included) is caught
  inside the check.
\<close>

definition deployed_run ::
  "remote \<Rightarrow> string \<Rightarrow> string \<Rightarrow> roster_record \<Rightarrow> verdict promise" where
  "deployed_run w owner name t =
     (case deploy_url t of
        None \<Rightarrow> Inr \<lparr>pass = False, detail = ''No deploy_url in teams.json''\<rparr>
      | Some url \<Rightarrow>
          if url = [] then Inr \<lparr>pass = False, detail = ''No deploy_url in teams.json''\<rparr>
          else
            (case http w url of
               Inr code \<Rightarrow>
                 Inr \<lparr>pass = (200 \<le> code \<and> code \<le> 299),
                      detail = url @ '' '' @ arrow @ '' HTTP '' @ show_nat code\<rparr>
             | Inl msg \<Rightarrow> Inr \<lparr>pass = False, detail = url @ '' '' @ arrow @ '' '' @ msg\<rparr>))"

definition gh_protection :: "remote \<Rightarrow> string \<Rightarrow> string \<Rightarrow> protection option promise" where
  "gh_protection w owner name = branch_protection w owner name"

definition branch_protection_run ::
  "remote \<Rightarrow> string \<Rightarrow> string \<Rightarrow> roster_record \<Rightarrow> verdict promise" where
  "branch_protection_run w owner name t =
     await (gh_protection w owner name) (\<lambda>prot.
       case prot of
         None \<Rightarrow> Inr \<lparr>pass = False, detail = ''No branch protection''\<rparr>
       | Some pr \<Rightarrow>
           if \<not> falsy (message pr) then Inr \<lparr>pass = False, detail = ''No branch protection''\<rparr>
           else
             let prRequired = required_pull_request_reviews pr
             in Inr \<lparr>pass = prRequired,
                     detail = (if prRequired then ''PR required before merge '' @ check_mark
                               else ''Protection exists but PR not required'')\<rparr>)"

definition auto_deploy_cond :: "string \<Rightarrow> bool" where
  "auto_deploy_cond content =
     (let lower = toLowerCase content
      in (includes_str lower ''deploy'' \<or> includes_str lower ''render''
          \<or> includes_str lower ''fly.io'' \<or> includes_str lower ''railway'')
         \<and> (includes_str lower ''push'' \<and> includes_str lower ''main''))"

definition auto_deploy_run ::
  "remote \<Rightarrow> string \<Rightarrow> string \<Rightarrow> roster_record \<Rightarrow> verdict promise" where
  "auto_deploy_run w owner name t =
     await (gh_tree w owner name) (\<lambda>tree.
       case tree of
         None \<Rightarrow> Inr \<lparr>pass = False, detail = ''Cannot read repo''\<rparr>
       | Some tr \<Rightarrow>
           await (first_workflow w owner name auto_deploy_cond (filter is_workflow tr)) (\<lambda>hit.
             case hit of
               Some (wfile, c) \<Rightarrow>
                 Inr \<lparr>pass = True, detail = ''Deploy on push to main in '' @ path wfile\<rparr>
             | None \<Rightarrow> Inr \<lparr>pass = False, detail = ''No auto-deploy workflow found''\<rparr>))"

definition multi_env_cond :: "string \<Rightarrow> bool" where
  "multi_env_cond content =
     (let lower = toLowerCase content;
          envs = filter (\<lambda>e. includes_str lower (''environment: '' @ e)
                            \<or> includes_str lower (''environment:'' @ [CHR 0x0A]))
                   [''staging'', ''production'', ''prod'', ''dev'']
      in length envs \<ge> 2 \<or> (includes_str lower ''staging'' \<and> includes_str lower ''prod''))"

definition multi_env_run ::
  "remote \<Rightarrow> string \<Rightarrow> string \<Rightarrow> roster_record \<Rightarrow> verdict promise" where
  "multi_env_run w owner name t =
     await (gh_tree w owner name) (\<lambda>tree.
       case tree of
         None \<Rightarrow> Inr \<lparr>pass = False, detail = ''Cannot read repo''\<rparr>
       | Some tr \<Rightarrow>
           await (first_workflow w owner name multi_env_cond (filter is_workflow tr)) (\<lambda>hit.
             case hit of
               Some (wfile, c) \<Rightarrow> Inr \<lparr>pass = True, detail = ''Multiple environments detected''\<rparr>
             | None \<Rightarrow> Inr \<lparr>pass = False, detail = ''Single environment or none''\<rparr>))"

text \<open>
  \<open>pipeline_fast\<close>: the loop adds \<^verbatim>\<open>end - start\<close> over the runs of the response.
  \<^verbatim>\<open>totalMs\<close> and \<^verbatim>\<open>count\<close> are integers, exact as doubles below \<open>2 ^ 53\<close>; a
  mean below 180000 ms is below it by at least \<open>1 / count\<close>, far more than a rounding
  error, so the double comparison \<^verbatim>\<open>avgMin < 3\<close> decides as the exact quotient does.
\<close>

definition totalMs_of :: "workflow_run list \<Rightarrow> int" where
  "totalMs_of rs = fold (\<lambda>r acc. acc + (updated_at r - created_at r)) rs 0"

definition pipeline_fast_run ::
  "remote \<Rightarrow> string \<Rightarrow> string \<Rightarrow> roster_record \<Rightarrow> verdict promise" where
  "pipeline_fast_run w owner name t =
     await (gh_runs w owner name True 3) (\<lambda>rs.
       case rs of
         None \<Rightarrow> Inr \<lparr>pass = False, detail = ''No successful runs''\<rparr>
       | Some [] \<Rightarrow> Inr \<lparr>pass = False, detail = ''No successful runs''\<rparr>
       | Some (r # rest) \<Rightarrow>
           let totalMs = totalMs_of (r # rest);
               count = length (r # rest);
               avgMin = (of_int totalMs :: rat) / of_nat count / 60000
           in Inr \<lparr>pass = (avgMin < 3),
                   detail = ''Average: '' @ toFixed1 avgMin @ '' min (last '' @ show_nat count
                     @ '' runs)''\<rparr>)"

definition dependabot_run ::
  "remote \<Rightarrow> string \<Rightarrow> string \<Rightarrow> roster_record \<Rightarrow> verdict promise" where
  "dependabot_run w owner name t =
     await (ghRaw w owner name ''.github/dependabot.yml'') (\<lambda>depbot.
       if \<not> falsy depbot then Inr \<lparr>pass = True, detail = ''dependabot.yml found''\<rparr>
       else
         await (ghRaw w owner name ''renovate.json'') (\<lambda>renovate.
           if \<not> falsy renovate then Inr \<lparr>pass = True, detail = ''renovate.json found''\<rparr>
           else
             await (ghRaw w owner name ''.github/renovate.json'') (\<lambda>renovate2.
               if \<not> falsy renovate2
               then Inr \<lparr>pass = True, detail = ''.github/renovate.json found''\<rparr>
               else Inr \<lparr>pass = False, detail = ''No dependency update config''\<rparr>)))"

text \<open>The registry, in the order of \<^verbatim>\<open>Object.entries(CHECKS)\<close>.\<close>

definition CHECKS :: "(string \<times> check) list" where
  "CHECKS =
     [(''pipeline_exists'', \<lparr>check_points = 5, check_category = ''fundamentals'',
         check_label = ''Pipeline exists'', run = pipeline_exists_run\<rparr>),
      (''pipeline_green'', \<lparr>check_points = 5, check_category = ''fundamentals'',
         check_label = ''Pipeline green on main'', run = pipeline_green_run\<rparr>),
      (''lint_pass'', \<lparr>check_points = 5, check_category = ''fundamentals'',
         check_label = ''Lint step in pipeline'', run = lint_pass_run\<rparr>),
      (''no_secrets_in_code'', \<lparr>check_points = 5, check_category = ''fundamentals'',
         check_label = ''No hardcoded secrets'', run = no_secrets_in_code_run\<rparr>),
      (''tests_exist'', \<lparr>check_points = 10, check_category = ''fundamentals'',
         check_label = ''Tests exist in pipeline'', run = tests_exist_run\<rparr>),
      (''tests_pass'', \<lparr>check_points = 5, check_category = ''fundamentals'',
         check_label = ''Tests pass'', run = tests_pass_run\<rparr>),
      (''coverage_70'', \<lparr>check_points = 10, check_category = ''fundamentals'',
         check_label = ''Coverage '' @ [CHR 0xE2, CHR 0x89, CHR 0xA5] @ '' 70%'',
         run = coverage_70_run\<rparr>),
      (''dockerfile_exists'', \<lparr>check_points = 5, check_category = ''fundamentals'',
         check_label = ''Dockerfile exists'', run = dockerfile_exists_run\<rparr>),
      (''docker_builds'', \<lparr>check_points = 5, check_category = ''fundamentals'',
         check_label = ''Docker build in CI'', run = docker_builds_run\<rparr>),
      (''security_scan'', \<lparr>check_points = 10, check_category = ''intermediate'',
         check_label = ''Security scan in CI'', run = security_scan_run\<rparr>),
      (''ghcr_published'', \<lparr>check_points = 10, check_category = ''intermediate'',
         check_label = ''Image on GHCR'', run = ghcr_published_run\<rparr>),
      (''quality_gate'', \<lparr>check_points = 10, check_category = ''intermediate'',
         check_label = ''Quality gate (SonarCloud etc.)'', run = quality_gate_run\<rparr>),
      (''deployed'', \<lparr>check_points = 10, check_category = ''intermediate'',
         check_label = ''App deployed (HTTP 200)'', run = deployed_run\<rparr>),
      (''branch_protection'', \<lparr>check_points = 5, check_category = ''advanced'',
         check_label = ''Branch protection on main'', run = branch_protection_run\<rparr>),
      (''auto_deploy'', \<lparr>check_points = 10, check_category = ''advanced'',
         check_label = ''Auto-deploy on push to main'', run = auto_deploy_run\<rparr>),
      (''multi_env'', \<lparr>check_points = 10, check_category = ''advanced'',
         check_label = ''Multiple environments'', run = multi_env_run\<rparr>),
      (''pipeline_fast'', \<lparr>check_points = 5, check_category = ''advanced'',
         check_label = ''Pipeline < 3 minutes'', run = pipeline_fast_run\<rparr>),
      (''dependabot'', \<lparr>check_points = 5, check_category = ''advanced'',
         check_label = ''Dependabot/Renovate configured'', run = dependabot_run\<rparr>)]"

section \<open>Scoring and ranking\<close>

record score = roster_record +
  total :: nat
  maxTotal :: nat
  results :: "(string \<times> probe_result) list"

record ranked = score +
  rank :: nat

record leaderboard =
  generated_at :: string
  total_possible :: nat
  teams :: "ranked list"

text \<open>
  One turn of the loop of \<^verbatim>\<open>scoreTeam\<close> over \<^verbatim>\<open>Object.entries(CHECKS)\<close>, on the
  loop's three variables. \<open>results\<close> is an object: assigning a key replaces its value, and a
  new key goes last. The \<^verbatim>\<open>catch\<close> branch is the \<open>Inl\<close> case.
\<close>

type_synonym tally = "(string \<times> probe_result) list \<times> nat \<times> nat"

definition score_check ::
  "remote \<Rightarrow> string \<Rightarrow> string \<Rightarrow> roster_record \<Rightarrow> string \<times> check \<Rightarrow> tally \<Rightarrow> tally" where
  "score_check w owner name t kc acc =
     (case kc of (key, chk) \<Rightarrow>
      case acc of (res, tot, mx) \<Rightarrow>
        (case run chk w owner name t of
           Inr result \<Rightarrow>
             (AList.update key
                \<lparr>pass = pass result, detail = detail result, points = check_points chk,
                 label = check_label chk, category = check_category chk\<rparr> res,
              (if pass result then tot + check_points chk else tot),
              mx + check_points chk)
         | Inl msg \<Rightarrow>
             (AList.update key
                \<lparr>pass = False, detail = ''Error: '' @ msg, points = check_points chk,
                 label = check_label chk, category = check_category chk\<rparr> res,
              tot,
              mx + check_points chk)))"

text \<open>\<^verbatim>\<open>const [owner, repo] = team.repo.split("/")\<close>; a missing part is
  \<^verbatim>\<open>undefined\<close>, which the request paths print as that word.\<close>

definition owner_of :: "string \<Rightarrow> string" where
  "owner_of r = (case split_str CHR ''/'' r of [] \<Rightarrow> ''undefined'' | x # _ \<Rightarrow> x)"

definition name_of :: "string \<Rightarrow> string" where
  "name_of r = (case split_str CHR ''/'' r of _ # y # _ \<Rightarrow> y | _ \<Rightarrow> ''undefined'')"

definition run_checks :: "(string \<times> check) list \<Rightarrow> remote \<Rightarrow> roster_record \<Rightarrow> tally" where
  "run_checks checks w t =
     fold (score_check w (owner_of (repo t)) (name_of (repo t)) t) checks ([], 0, 0)"

definition scoreTeam_with :: "(string \<times> check) list \<Rightarrow> remote \<Rightarrow> roster_record \<Rightarrow> score" where
  "scoreTeam_with checks w t =
     (case run_checks checks w t of (res, tot, mx) \<Rightarrow>
        \<lparr>team = team t, members = members t, repo = repo t, deploy_url = deploy_url t,
         total = tot, maxTotal = mx, results = res\<rparr>)"

definition scoreTeam :: "remote \<Rightarrow> roster_record \<Rightarrow> score" where
  "scoreTeam = scoreTeam_with CHECKS"

text \<open>
  \<^verbatim>\<open>Array.prototype.sort\<close> with a comparator is stable: of two elements the comparator
  does not order, the one that came first stays first. For a consistent comparator the
  result is the one an insertion sort gives, which is the model here.
\<close>

fun insert_sorted :: "('a \<Rightarrow> 'a \<Rightarrow> int) \<Rightarrow> 'a \<Rightarrow> 'a list \<Rightarrow> 'a list" where
  "insert_sorted cmp x [] = [x]"
| "insert_sorted cmp x (y # ys) =
     (if cmp x y \<le> 0 then x # y # ys else y # insert_sorted cmp x ys)"

definition js_sort :: "('a \<Rightarrow> 'a \<Rightarrow> int) \<Rightarrow> 'a list \<Rightarrow> 'a list" where
  "js_sort cmp xs = foldr (insert_sorted cmp) xs []"

text \<open>\<^verbatim>\<open>(a, b) => b.total - a.total\<close>.\<close>

definition by_total_desc :: "score \<Rightarrow> score \<Rightarrow> int" where
  "by_total_desc a b = int (total b) - int (total a)"

text \<open>\<^verbatim>\<open>scores.forEach((s, i) => (s.rank = i + 1))\<close>, from index \<open>i\<close> on.\<close>

fun add_rank :: "nat \<Rightarrow> score list \<Rightarrow> ranked list" where
  "add_rank i [] = []"
| "add_rank i (s # ss) =
     \<lparr>team = team s, members = members s, repo = repo s, deploy_url = deploy_url s,
      total = total s, maxTotal = maxTotal s, results = results s, rank = i + 1\<rparr>
     # add_rank (i + 1) ss"

definition rank_scores :: "score list \<Rightarrow> ranked list" where
  "rank_scores scores = add_rank 0 (js_sort by_total_desc scores)"

text \<open>
  \<^verbatim>\<open>main\<close>: the roster is the parsed \<^verbatim>\<open>teams.json\<close>, \<open>now\<close> the timestamp of
  the run; the value is the document written to \<^verbatim>\<open>docs/scores.json\<close>.
\<close>

definition main_with ::
  "(string \<times> check) list \<Rightarrow> remote \<Rightarrow> string \<Rightarrow> roster_record list \<Rightarrow> leaderboard" where
  "main_with checks w now roster =
     (let scores = map (scoreTeam_with checks w) roster
      in \<lparr>generated_at = now,
          total_possible = foldl (\<lambda>s c. s + check_points c) 0 (map snd checks),
          teams = rank_scores scores\<rparr>)"

definition main :: "remote \<Rightarrow> string \<Rightarrow> roster_record list \<Rightarrow> leaderboard" where
  "main = main_with CHECKS"

section \<open>Notions the properties speak of\<close>

text \<open>What a ranked entry holds besides its rank.\<close>

definition unranked :: "ranked \<Rightarrow> score" where
  "unranked e =
     \<lparr>team = team e, members = members e, repo = repo e, deploy_url = deploy_url e,
      total = total e, maxTotal = maxTotal e, results = results e\<rparr>"

definition awardedPoints :: "probe_result \<Rightarrow> nat" where
  "awardedPoints r = (if pass r then points r else 0)"

text \<open>What the loop of \<^verbatim>\<open>scoreTeam\<close> stores for a check, given the outcome of its run.\<close>

definition recorded :: "check \<Rightarrow> verdict promise \<Rightarrow> probe_result" where
  "recorded chk outcome =
     (case outcome of
        Inr result \<Rightarrow>
          \<lparr>pass = pass result, detail = detail result, points = check_points chk,
           label = check_label chk, category = check_category chk\<rparr>
      | Inl msg \<Rightarrow>
          \<lparr>pass = False, detail = ''Error: '' @ msg, points = check_points chk,
           label = check_label chk, category = check_category chk\<rparr>)"

text \<open>Some secret pattern matches the content.\<close>

definition is_secret :: "string \<Rightarrow> bool" where
  "is_secret c = list_ex (\<lambda>p. rx_test p c) secret_patterns"





text \<open>The code host with every raw file rewritten by \<open>f\<close>.\<close>

definition recase :: "(string \<Rightarrow> string) \<Rightarrow> remote \<Rightarrow> remote" where
  "recase f w =
     w\<lparr>raw_files := (\<lambda>owner name p.
          case raw_files w owner name p of
            Inl e \<Rightarrow> Inl e
          | Inr c \<Rightarrow> Inr (map_option f c))\<rparr>"

section \<open>Example inputs\<close>

text \<open>Three audits, two of them tied.\<close>

definition audit_of :: "string \<Rightarrow> nat \<Rightarrow> score" where
  "audit_of nm n =
     \<lparr>team = nm, members = [], repo = ''o/'' @ nm, deploy_url = None,
      total = n, maxTotal = 130, results = []\<rparr>"

definition tied_audits :: "score list" where
  "tied_audits = [audit_of ''A'' 40, audit_of ''B'' 55, audit_of ''C'' 40]"

text \<open>A code host that cannot be reached: every request throws.\<close>

definition down_remote :: remote where
  "down_remote =
     \<lparr>trees = (\<lambda>owner name. Inl ''fetch failed''),
      raw_files = (\<lambda>owner name p. Inl ''fetch failed''),
      runs = (\<lambda>owner name. Inl ''fetch failed''),
      run_jobs = (\<lambda>owner name rid. Inl ''fetch failed''),
      run_artifacts = (\<lambda>owner name rid. Inl ''fetch failed''),
      packages = (\<lambda>owner name. Inl ''fetch failed''),
      branch_protection = (\<lambda>owner name. Inl ''fetch failed''),
      http = (\<lambda>url. Inl ''fetch failed'')\<rparr>"

text \<open>The timestamp of a run.\<close>

definition new_year :: string where
  "new_year = ''2026-01-01T00:00:00.000Z''"

definition team_a :: roster_record where
  "team_a = \<lparr>team = ''A'', members = [''ann''], repo = ''x/y'', deploy_url = None\<rparr>"

text \<open>A team with a deploy URL, and a code host whose only answer is an HTTP status.\<close>

definition team_deployed :: roster_record where
  "team_deployed =
     \<lparr>team = ''B'', members = [''bob''], repo = ''x/z'',
      deploy_url = Some ''https://example.test/health''\<rparr>"

definition answering :: "nat \<Rightarrow> remote" where
  "answering code = down_remote\<lparr>http := (\<lambda>url. Inr code)\<rparr>"

text \<open>Run histories, newest first: the duration of \<open>run_of n c ms\<close> is \<open>ms\<close>.\<close>

definition with_runs :: "workflow_run list \<Rightarrow> remote \<Rightarrow> remote" where
  "with_runs hist w = w\<lparr>runs := (\<lambda>owner name. Inr (Some hist))\<rparr>"

definition run_of :: "nat \<Rightarrow> string \<Rightarrow> int \<Rightarrow> workflow_run" where
  "run_of n c ms =
     \<lparr>run_id = n, conclusion = Some c, status = ''completed'', run_number = n,
      created_at = 1000000, updated_at = 1000000 + ms\<rparr>"

definition sample_history :: "workflow_run list" where
  "sample_history =
     [run_of 5 ''success'' 100000, run_of 4 ''failure'' 900000, run_of 3 ''success'' 200000,
      run_of 2 ''success'' 120000, run_of 1 ''success'' 1000000]"

definition fast_remote :: remote where
  "fast_remote = with_runs sample_history down_remote"

definition slow_remote :: remote where
  "slow_remote = with_runs [run_of 1 ''success'' 200000] down_remote"

definition idle_remote :: remote where
  "idle_remote = with_runs [run_of 1 ''failure'' 1000] down_remote"

text \<open>A green latest run with a given list of jobs.\<close>

definition with_jobs :: "job list \<Rightarrow> remote \<Rightarrow> remote" where
  "with_jobs js w = w\<lparr>run_jobs := (\<lambda>owner name rid. Inr (Some js))\<rparr>"

definition green_remote :: "job list \<Rightarrow> remote" where
  "green_remote js = with_jobs js (with_runs [run_of 7 ''success'' 60000] down_remote)"

definition skipped_then_passed :: "job list" where
  "skipped_then_passed =
     [\<lparr>job_name = ''build-docs'', job_conclusion = Some ''skipped''\<rparr>,
      \<lparr>job_name = ''Unit tests'', job_conclusion = Some ''success''\<rparr>]"

text \<open>A code host that serves the given raw files, and no other.\<close>

definition with_files :: "(string \<times> string) list \<Rightarrow> remote \<Rightarrow> remote" where
  "with_files files w = w\<lparr>raw_files := (\<lambda>owner name p. Inr (map_of files p))\<rparr>"





text \<open>A code host whose tree holds the given paths.\<close>

definition with_tree :: "string list \<Rightarrow> remote \<Rightarrow> remote" where
  "with_tree paths w = w\<lparr>trees := (\<lambda>owner name. Inr (Some (map (\<lambda>p. \<lparr>path = p\<rparr>) paths)))\<rparr>"

definition yaml_remote :: remote where
  "yaml_remote = with_tree [''.github/workflows/ci.yaml'', ''README.md''] down_remote"

text \<open>A repository with one workflow file of the given content.\<close>

definition workflow_remote :: "string \<Rightarrow> remote" where
  "workflow_remote content =
     with_files [(''.github/workflows/ci.yml'', content)]
       (with_tree [''.github/workflows/ci.yml''] down_remote)"

section \<open>The matcher and the patterns\<close>



text \<open>The matcher accepts exactly the strings of the language.\<close>

lemma concat_langI: "u \<in> A \<Longrightarrow> v \<in> B \<Longrightarrow> u @ v \<in> concat_lang A B"
  by (auto simp: concat_lang_def)

lemma concat_langE:
  assumes "s \<in> concat_lang A B"
  obtains u v where "s = u @ v" and "u \<in> A" and "v \<in> B"
  using assms by (auto simp: concat_lang_def)

lemma nullable_lang: "nullable r \<longleftrightarrow> [] \<in> lang r"
  by (induction r) (auto simp: concat_lang_def intro: repeat_none)

lemma lang_alt: "lang (alt r s) = lang r \<union> lang s"
  by (induction r s rule: alt.induct) simp_all

lemma lang_seq: "lang (seq r s) = concat_lang (lang r) (lang s)"
  by (induction r s rule: seq.induct) (simp_all add: concat_lang_def)

lemma cons_in_concat:
  "c # s \<in> concat_lang A B \<longleftrightarrow>
     (\<exists>u v. s = u @ v \<and> c # u \<in> A \<and> v \<in> B) \<or> ([] \<in> A \<and> c # s \<in> B)"
proof
  assume "c # s \<in> concat_lang A B"
  then obtain u v where uv: "c # s = u @ v" "u \<in> A" "v \<in> B"
    by (rule concat_langE)
  show "(\<exists>u v. s = u @ v \<and> c # u \<in> A \<and> v \<in> B) \<or> ([] \<in> A \<and> c # s \<in> B)"
  proof (cases u)
    case Nil
    with uv show ?thesis by simp
  next
    case (Cons d u')
    with uv show ?thesis by auto
  qed
next
  assume "(\<exists>u v. s = u @ v \<and> c # u \<in> A \<and> v \<in> B) \<or> ([] \<in> A \<and> c # s \<in> B)"
  then show "c # s \<in> concat_lang A B"
  proof
    assume "\<exists>u v. s = u @ v \<and> c # u \<in> A \<and> v \<in> B"
    then obtain u v where "s = u @ v" "c # u \<in> A" "v \<in> B" by blast
    then show ?thesis using concat_langI [of "c # u" A v B] by simp
  next
    assume "[] \<in> A \<and> c # s \<in> B"
    then show ?thesis using concat_langI [of "[]" A "c # s" B] by simp
  qed
qed

lemma cons_in_repeat:
  "c # s \<in> repeat_lang A \<longleftrightarrow> (\<exists>u v. s = u @ v \<and> c # u \<in> A \<and> v \<in> repeat_lang A)"
proof
  assume "c # s \<in> repeat_lang A"
  then show "\<exists>u v. s = u @ v \<and> c # u \<in> A \<and> v \<in> repeat_lang A"
  proof (induction "c # s" arbitrary: s rule: repeat_lang.induct)
    case (repeat_more u v)
    show ?case
    proof (cases u)
      case Nil
      with repeat_more show ?thesis by simp
    next
      case (Cons d u')
      with repeat_more show ?thesis by auto
    qed
  qed
next
  assume "\<exists>u v. s = u @ v \<and> c # u \<in> A \<and> v \<in> repeat_lang A"
  then obtain u v where "s = u @ v" "c # u \<in> A" "v \<in> repeat_lang A" by blast
  then show "c # s \<in> repeat_lang A"
    using repeat_more [of "c # u" A v] by simp
qed

lemma lang_deriv: "lang (deriv c r) = {s. c # s \<in> lang r}"
proof (induction r)
  case Never
  show ?case by simp
next
  case Empty
  show ?case by simp
next
  case (Atom p)
  show ?case by auto
next
  case (Alt r s)
  then show ?case by (auto simp: lang_alt)
next
  case (Seq r s)
  have "lang (deriv c (Seq r s))
          = concat_lang (lang (deriv c r)) (lang s) \<union> (if nullable r then lang (deriv c s) else {})"
    by (simp add: lang_alt lang_seq)
  also have "\<dots> = {t. (\<exists>u v. t = u @ v \<and> c # u \<in> lang r \<and> v \<in> lang s)
                      \<or> ([] \<in> lang r \<and> c # t \<in> lang s)}"
    by (auto simp: Seq nullable_lang concat_lang_def)
  also have "\<dots> = {t. c # t \<in> lang (Seq r s)}"
    by (simp add: cons_in_concat)
  finally show ?case .
next
  case (Star r)
  have "lang (deriv c (Star r)) = concat_lang (lang (deriv c r)) (repeat_lang (lang r))"
    by (simp add: lang_seq)
  also have "\<dots> = {t. \<exists>u v. t = u @ v \<and> c # u \<in> lang r \<and> v \<in> repeat_lang (lang r)}"
    by (auto simp: Star concat_lang_def)
  also have "\<dots> = {t. c # t \<in> lang (Star r)}"
    by (simp add: cons_in_repeat)
  finally show ?case .
qed

lemma lang_fold_deriv: "lang (fold deriv s r) = {t. s @ t \<in> lang r}"
  by (induction s arbitrary: r) (simp_all add: lang_deriv)

lemma matches_lang: "matches r s \<longleftrightarrow> s \<in> lang r"
  by (simp add: matches_def nullable_lang lang_fold_deriv)

lemma any_string: "s \<in> lang (Star any_char)"
proof (induction s)
  case Nil
  show ?case by (simp add: repeat_none)
next
  case (Cons c s)
  have "[c] \<in> lang any_char" by (simp add: any_char_def)
  moreover from Cons have "s \<in> repeat_lang (lang any_char)" by simp
  ultimately have "[c] @ s \<in> repeat_lang (lang any_char)"
    by (rule repeat_more)
  then show ?case by simp
qed

lemma rx_match_end_lang: "rx_match_end r s \<longleftrightarrow> (\<exists>u v. s = u @ v \<and> v \<in> lang r)"
proof
  assume "rx_match_end r s"
  then have "s \<in> concat_lang (lang (Star any_char)) (lang r)"
    by (simp add: rx_match_end_def matches_lang)
  then obtain u v where "s = u @ v" "v \<in> lang r" by (rule concat_langE)
  then show "\<exists>u v. s = u @ v \<and> v \<in> lang r" by blast
next
  assume "\<exists>u v. s = u @ v \<and> v \<in> lang r"
  then obtain u v where s: "s = u @ v" and v: "v \<in> lang r" by blast
  have "u @ v \<in> concat_lang (lang (Star any_char)) (lang r)"
    using any_string v by (rule concat_langI)
  then show "rx_match_end r s"
    by (simp add: rx_match_end_def matches_lang s)
qed










lemma in_concat: "s \<in> concat_lang A B \<longleftrightarrow> (\<exists>u v. s = u @ v \<and> u \<in> A \<and> v \<in> B)"
  by (auto simp: concat_lang_def)



















text \<open>The definitions that evaluate a pattern on a given string.\<close>

lemmas rx_eval = secret_patterns_def rx_test_def rx_match_end_def matches_def lit_def lit_i_def
  at_least_def one_or_more_def optional_def any_char_def dot_def space_def quote_def not_quote_def
  one_of_def none_of_def one_of_i_def alnum_def lower_char_def eval_nat_numeral

lemma short_literal_is_no_secret:
  "\<not> is_secret (''password='' @ [CHR 0x22] @ ''abcde'' @ [CHR 0x22])"
  by (simp add: is_secret_def rx_eval)

lemma test_file_examples:
  "is_test_file \<lparr>path = ''tests/test_api.py''\<rparr>"
  "is_test_file \<lparr>path = ''src/app.spec.ts''\<rparr>"
  "\<not> is_test_file \<lparr>path = ''README.md''\<rparr>"
  by (simp_all add: is_test_file_def rx_eval)

section \<open>Properties of scoring and ranking\<close>

lemma score_check_maxTotal:
  "snd (snd (score_check w owner name t kc acc)) = snd (snd acc) + check_points (snd kc)"
  by (cases kc; cases acc) (simp add: score_check_def split: sum.splits)

lemma fold_score_check_maxTotal:
  "snd (snd (fold (score_check w owner name t) cs acc))
     = snd (snd acc) + sum_list (map (\<lambda>kc. check_points (snd kc)) cs)"
  by (induction cs arbitrary: acc) (simp_all add: score_check_maxTotal)

lemma scoreTeam_with_sel:
  "results (scoreTeam_with checks w t) = fst (run_checks checks w t)"
  "total (scoreTeam_with checks w t) = fst (snd (run_checks checks w t))"
  "maxTotal (scoreTeam_with checks w t) = snd (snd (run_checks checks w t))"
  "team (scoreTeam_with checks w t) = team t"
  "members (scoreTeam_with checks w t) = members t"
  "repo (scoreTeam_with checks w t) = repo t"
  "deploy_url (scoreTeam_with checks w t) = deploy_url t"
  by (simp_all add: scoreTeam_with_def split: prod.splits)

lemma maxTotal_scoreTeam_with:
  "maxTotal (scoreTeam_with checks w t) = sum_list (map (\<lambda>kc. check_points (snd kc)) checks)"
  by (simp add: scoreTeam_with_sel run_checks_def fold_score_check_maxTotal)

lemma foldl_points: "foldl (\<lambda>s c. s + check_points c) a cs = a + sum_list (map check_points cs)"
  by (induction cs arbitrary: a) simp_all

lemma total_possible_main_with:
  "total_possible (main_with checks w now roster) = sum_list (map (\<lambda>kc. check_points (snd kc)) checks)"
  by (simp add: main_with_def foldl_points comp_def)

lemma mset_insert_sorted: "mset (insert_sorted cmp x ys) = add_mset x (mset ys)"
  by (induction ys) simp_all

lemma mset_js_sort: "mset (js_sort cmp xs) = mset xs"
  by (induction xs) (simp_all add: js_sort_def mset_insert_sorted)

lemma length_js_sort: "length (js_sort cmp xs) = length xs"
  using mset_js_sort [of cmp xs] by (metis size_mset)

lemma set_js_sort: "set (js_sort cmp xs) = set xs"
  using mset_js_sort [of cmp xs] by (metis set_mset_mset)

lemma map_unranked_add_rank: "map unranked (add_rank i ss) = ss"
  by (induction ss arbitrary: i) (simp_all add: unranked_def)

lemma length_add_rank: "length (add_rank i ss) = length ss"
  by (induction ss arbitrary: i) simp_all

lemma map_rank_add_rank: "map rank (add_rank i ss) = [Suc i ..< Suc i + length ss]"
  by (induction ss arbitrary: i) (simp_all add: upt_rec)

lemma CHECKS_sum: "sum_list (map (\<lambda>kc. check_points (snd kc)) CHECKS) = 130"
  by (simp add: CHECKS_def)

lemma map_const_replicate: "(\<And>x. x \<in> set xs \<Longrightarrow> f x = c) \<Longrightarrow> map f xs = replicate (length xs) c"
  by (induction xs) simp_all

lemma map_maxTotal_add_rank: "map maxTotal (add_rank i ss) = map maxTotal ss"
  by (induction ss arbitrary: i) simp_all

lemma map_maxTotal_rank_scores:
  assumes "\<And>s. s \<in> set ss \<Longrightarrow> maxTotal s = c"
  shows "map maxTotal (rank_scores ss) = replicate (length ss) c"
proof -
  have "map maxTotal (js_sort by_total_desc ss) = replicate (length (js_sort by_total_desc ss)) c"
    by (rule map_const_replicate) (simp add: set_js_sort assms)
  then show ?thesis
    by (simp add: rank_scores_def map_maxTotal_add_rank length_js_sort)
qed

text \<open>
  C1. Whatever the registry, the remote state and the roster: \<open>maxTotal\<close> of an audit is the
  sum of the points of all checks of the registry (a check that fails or throws still adds
  its points), \<open>total_possible\<close> of the document is that same sum, and every entry of the
  document carries it. For the registry of the source the sum is 130.
\<close>

theorem totalPossible_is_registry_sum:
  "maxTotal (scoreTeam_with checks w t) = sum_list (map (\<lambda>kc. check_points (snd kc)) checks)
   \<and> total_possible (main_with checks w now roster)
       = sum_list (map (\<lambda>kc. check_points (snd kc)) checks)
   \<and> map maxTotal (teams (main_with checks w now roster))
       = replicate (length roster) (total_possible (main_with checks w now roster))
   \<and> maxTotal (scoreTeam w t) = 130
   \<and> total_possible (main w now roster) = 130"
proof -
  let ?sum = "sum_list (map (\<lambda>kc. check_points (snd kc)) checks)"
  have a: "maxTotal (scoreTeam_with checks w t) = ?sum"
    by (rule maxTotal_scoreTeam_with)
  have b: "total_possible (main_with checks w now roster) = ?sum"
    by (rule total_possible_main_with)
  have "map maxTotal (rank_scores (map (scoreTeam_with checks w) roster))
          = replicate (length (map (scoreTeam_with checks w) roster)) ?sum"
    by (rule map_maxTotal_rank_scores) (auto simp: maxTotal_scoreTeam_with)
  then have c: "map maxTotal (teams (main_with checks w now roster))
                  = replicate (length roster) (total_possible (main_with checks w now roster))"
    unfolding b by (simp add: main_with_def)
  have d: "maxTotal (scoreTeam w t) = 130"
    by (simp add: scoreTeam_def maxTotal_scoreTeam_with CHECKS_sum)
  have e: "total_possible (main w now roster) = 130"
    by (simp add: main_def total_possible_main_with CHECKS_sum)
  from a b c d e show ?thesis by blast
qed

theorem totalPossible_is_registry_sum_witness:
  "maxTotal (scoreTeam down_remote team_a) = 130
   \<and> total_possible (main down_remote new_year [team_a, team_deployed]) = 130
   \<and> map maxTotal (teams (main down_remote new_year [team_a, team_deployed])) = [130, 130]"
proof -
  note th = totalPossible_is_registry_sum
    [of CHECKS down_remote team_a new_year "[team_a, team_deployed]"]
  from th have a: "maxTotal (scoreTeam down_remote team_a) = 130" by blast
  from th have b: "total_possible (main down_remote new_year [team_a, team_deployed]) = 130"
    by blast
  from th have "map maxTotal (teams (main_with CHECKS down_remote new_year [team_a, team_deployed]))
       = replicate (length [team_a, team_deployed])
           (total_possible (main_with CHECKS down_remote new_year [team_a, team_deployed]))"
    by blast
  with b have c: "map maxTotal (teams (main down_remote new_year [team_a, team_deployed]))
       = [130, 130]"
    by (simp add: main_def)
  from a b c show ?thesis by blast
qed

lemma set_insert_sorted: "set (insert_sorted cmp x ys) = insert x (set ys)"
  by (induction ys) auto

lemma sorted_insert_sorted:
  "sorted_wrt (\<lambda>a b. total b \<le> total a) ys \<Longrightarrow>
   sorted_wrt (\<lambda>a b. total b \<le> total a) (insert_sorted by_total_desc x ys)"
proof (induction ys)
  case Nil
  then show ?case by simp
next
  case (Cons y ys)
  show ?case
  proof (cases "by_total_desc x y \<le> 0")
    case True
    with Cons.prems show ?thesis by (auto simp: by_total_desc_def)
  next
    case False
    then have lt: "total x < total y" by (simp add: by_total_desc_def)
    from False have eq: "insert_sorted by_total_desc x (y # ys) = y # insert_sorted by_total_desc x ys"
      by simp
    from Cons lt show ?thesis
      unfolding eq by (auto simp: set_insert_sorted)
  qed
qed

lemma sorted_js_sort: "sorted_wrt (\<lambda>a b. total b \<le> total a) (js_sort by_total_desc xs)"
  by (induction xs) (simp_all add: js_sort_def sorted_insert_sorted)

lemma filter_insert_sorted:
  "filter (\<lambda>s. total s = v) (insert_sorted by_total_desc x ys)
     = (if total x = v then x # filter (\<lambda>s. total s = v) ys else filter (\<lambda>s. total s = v) ys)"
  by (induction ys) (auto simp: by_total_desc_def)

lemma filter_js_sort:
  "filter (\<lambda>s. total s = v) (js_sort by_total_desc xs) = filter (\<lambda>s. total s = v) xs"
  by (induction xs) (simp_all add: js_sort_def filter_insert_sorted)

lemma map_roster_add_rank:
  "map (\<lambda>e. (team e, members e, repo e, deploy_url e)) (add_rank i ss)
     = map (\<lambda>s. (team s, members s, repo s, deploy_url s)) ss"
  by (induction ss arbitrary: i) simp_all

lemma mset_map_js_sort: "mset (map f (js_sort cmp xs)) = mset (map f xs)"
proof -
  have "mset (map f (js_sort cmp xs)) = image_mset f (mset (js_sort cmp xs))" by simp
  also have "\<dots> = image_mset f (mset xs)" by (simp only: mset_js_sort)
  also have "\<dots> = mset (map f xs)" by simp
  finally show ?thesis .
qed

lemma teams_main_with:
  "teams (main_with checks w now roster) = rank_scores (map (scoreTeam_with checks w) roster)"
  by (simp add: main_with_def)

text \<open>
  C3. The document has as many entries as the roster has records, whatever the remote
  state (a repository whose every request throws or is refused included): the entries
  without their ranks are exactly the audits of the roster records, each once, and they
  carry exactly the roster's team, members, repository and deploy URL.
\<close>

theorem every_roster_record_listed:
  "length (teams (main_with checks w now roster)) = length roster
   \<and> mset (map unranked (teams (main_with checks w now roster)))
       = mset (map (scoreTeam_with checks w) roster)
   \<and> mset (map (\<lambda>e. (team e, members e, repo e, deploy_url e))
              (teams (main_with checks w now roster)))
       = mset (map (\<lambda>t. (team t, members t, repo t, deploy_url t)) roster)
   \<and> length (teams (main w now roster)) = length roster"
proof -
  let ?scores = "map (scoreTeam_with checks w) roster"
  have len: "length (teams (main_with checks w now roster)) = length roster"
    by (simp only: teams_main_with rank_scores_def length_add_rank length_js_sort length_map)
  have ms: "mset (map unranked (teams (main_with checks w now roster))) = mset ?scores"
    by (simp only: teams_main_with rank_scores_def map_unranked_add_rank mset_js_sort)
  have "map (\<lambda>s. (team s, members s, repo s, deploy_url s)) ?scores
          = map (\<lambda>t. (team t, members t, repo t, deploy_url t)) roster"
    by (simp add: scoreTeam_with_sel)
  then have rs: "mset (map (\<lambda>e. (team e, members e, repo e, deploy_url e))
              (teams (main_with checks w now roster)))
       = mset (map (\<lambda>t. (team t, members t, repo t, deploy_url t)) roster)"
    by (simp only: teams_main_with rank_scores_def map_roster_add_rank mset_map_js_sort)
  have len': "length (teams (main w now roster)) = length roster"
    unfolding main_def by (simp only: teams_main_with rank_scores_def length_add_rank length_js_sort length_map)
  from len ms rs len' show ?thesis by blast
qed

theorem every_roster_record_listed_witness:
  "length (teams (main down_remote new_year [team_a, team_deployed])) = 2
   \<and> mset (map (\<lambda>e. (team e, members e, repo e, deploy_url e))
              (teams (main down_remote new_year [team_a, team_deployed])))
       = {#(''A'', [''ann''], ''x/y'', None),
           (''B'', [''bob''], ''x/z'', Some ''https://example.test/health'')#}"
proof -
  note th = every_roster_record_listed
    [of CHECKS down_remote new_year "[team_a, team_deployed]"]
  let ?es = "teams (main down_remote new_year [team_a, team_deployed])"
  from th have a: "length ?es = 2" by simp
  from th have "mset (map (\<lambda>e. (team e, members e, repo e, deploy_url e)) ?es)
       = mset (map (\<lambda>t. (team t, members t, repo t, deploy_url t)) [team_a, team_deployed])"
    by (simp only: main_def)
  also have "\<dots> = {#(''A'', [''ann''], ''x/y'', None),
           (''B'', [''bob''], ''x/z'', Some ''https://example.test/health'')#}"
    by (simp add: team_a_def team_deployed_def)
  finally show ?thesis using a by blast
qed

lemma teams_main:
  "teams (main w now roster) = rank_scores (map (scoreTeam w) roster)"
  by (simp add: main_def main_with_def scoreTeam_def)

lemma sorted_rank_scores:
  "sorted_wrt (\<lambda>a b. total b \<le> total a) (rank_scores audits)"
proof -
  have "sorted_wrt (\<lambda>a b. total b \<le> total a) (map unranked (rank_scores audits))"
    by (simp only: rank_scores_def map_unranked_add_rank sorted_js_sort)
  then show ?thesis
    by (simp add: sorted_wrt_map unranked_def)
qed

text \<open>
  C2. For every sequence of audits: the ranks of the entries are 1, 2, ..., N in this order;
  an entry never has a smaller total than a later one; the entries with any given total
  stand in the order the audits came in (the sort is stable, so ties get distinct
  consecutive ranks); the entries are the audits, each once; and this is how
  \<^verbatim>\<open>main\<close> builds the document.
\<close>

theorem ranking_sorted_stable:
  "map rank (rank_scores audits) = [1 ..< Suc (length audits)]
   \<and> (\<forall>i j. i < j \<and> j < length audits
          \<longrightarrow> total (rank_scores audits ! j) \<le> total (rank_scores audits ! i))
   \<and> (\<forall>v. filter (\<lambda>s. total s = v) (map unranked (rank_scores audits))
          = filter (\<lambda>s. total s = v) audits)
   \<and> mset (map unranked (rank_scores audits)) = mset audits
   \<and> teams (main w now roster) = rank_scores (map (scoreTeam w) roster)"
proof -
  have len: "length (rank_scores audits) = length audits"
    by (simp only: rank_scores_def length_add_rank length_js_sort)
  have a: "map rank (rank_scores audits) = [1 ..< Suc (length audits)]"
    by (simp add: rank_scores_def map_rank_add_rank length_js_sort)
  have b: "\<forall>i j. i < j \<and> j < length audits
          \<longrightarrow> total (rank_scores audits ! j) \<le> total (rank_scores audits ! i)"
    using sorted_rank_scores [of audits] len
    by (simp add: sorted_wrt_iff_nth_less)
  have un: "map unranked (rank_scores audits) = js_sort by_total_desc audits"
    by (simp only: rank_scores_def map_unranked_add_rank)
  have c: "\<forall>v. filter (\<lambda>s. total s = v) (map unranked (rank_scores audits))
          = filter (\<lambda>s. total s = v) audits"
    by (simp only: un filter_js_sort) simp
  have d: "mset (map unranked (rank_scores audits)) = mset audits"
    by (simp only: un mset_js_sort)
  from a b c d teams_main show ?thesis by blast
qed

lemma tied_eval:
  "map (\<lambda>e. (team e, total e, rank e)) (rank_scores tied_audits)
     = [(''B'', 55, 1), (''A'', 40, 2), (''C'', 40, 3)]"
  by (simp add: rank_scores_def js_sort_def tied_audits_def audit_of_def by_total_desc_def)

theorem ranking_sorted_stable_witness:
  "map (\<lambda>e. (team e, total e, rank e)) (rank_scores tied_audits)
     = [(''B'', 55, 1), (''A'', 40, 2), (''C'', 40, 3)]
   \<and> map rank (rank_scores tied_audits) = [1, 2, 3]
   \<and> total (rank_scores tied_audits ! 2) \<le> total (rank_scores tied_audits ! 1)
   \<and> filter (\<lambda>s. total s = 40) (map unranked (rank_scores tied_audits))
       = [audit_of ''A'' 40, audit_of ''C'' 40]"
proof -
  note th = ranking_sorted_stable [of tied_audits]
  have len: "length tied_audits = 3" by (simp add: tied_audits_def)
  from th have r: "map rank (rank_scores tied_audits) = [1 ..< Suc (length tied_audits)]" by blast
  have r': "map rank (rank_scores tied_audits) = [1, 2, 3]"
    unfolding r len by (simp add: upt_rec)
  from th have "(1::nat) < 2 \<and> 2 < length tied_audits
      \<longrightarrow> total (rank_scores tied_audits ! 2) \<le> total (rank_scores tied_audits ! 1)" by blast
  then have s: "total (rank_scores tied_audits ! 2) \<le> total (rank_scores tied_audits ! 1)"
    by (simp add: len)
  from th have "filter (\<lambda>s. total s = 40) (map unranked (rank_scores tied_audits))
       = filter (\<lambda>s. total s = 40) tied_audits" by blast
  then have f: "filter (\<lambda>s. total s = 40) (map unranked (rank_scores tied_audits))
       = [audit_of ''A'' 40, audit_of ''C'' 40]"
    by (simp add: tied_audits_def audit_of_def)
  from tied_eval r' s f show ?thesis by blast
qed

lemma update_absent: "k \<notin> fst ` set al \<Longrightarrow> AList.update k v al = al @ [(k, v)]"
  by (induction al) auto

lemma score_check_results:
  "fst (score_check w owner name t kc acc)
     = AList.update (fst kc) (recorded (snd kc) (run (snd kc) w owner name t)) (fst acc)"
  by (cases kc; cases acc) (simp add: score_check_def recorded_def split: sum.splits)

lemma score_check_total:
  "fst (snd (score_check w owner name t kc acc))
     = fst (snd acc) + awardedPoints (recorded (snd kc) (run (snd kc) w owner name t))"
  by (cases kc; cases acc)
     (simp add: score_check_def recorded_def awardedPoints_def split: sum.splits)

lemma fold_score_check_results:
  "distinct (map fst cs) \<Longrightarrow> fst ` set (fst acc) \<inter> fst ` set cs = {} \<Longrightarrow>
   fst (fold (score_check w owner name t) cs acc)
     = fst acc @ map (\<lambda>kc. (fst kc, recorded (snd kc) (run (snd kc) w owner name t))) cs"
proof (induction cs arbitrary: acc)
  case Nil
  then show ?case by simp
next
  case (Cons c cs)
  let ?acc = "score_check w owner name t c acc"
  from Cons.prems have notin: "fst c \<notin> fst ` set (fst acc)" by auto
  have step: "fst ?acc = fst acc @ [(fst c, recorded (snd c) (run (snd c) w owner name t))]"
    by (simp add: score_check_results update_absent [OF notin])
  from Cons.prems have dis: "distinct (map fst cs)" by simp
  from Cons.prems have "fst ` set (fst ?acc) \<inter> fst ` set cs = {}"
    unfolding step by auto
  with dis have "fst (fold (score_check w owner name t) cs ?acc)
     = fst ?acc @ map (\<lambda>kc. (fst kc, recorded (snd kc) (run (snd kc) w owner name t))) cs"
    by (rule Cons.IH)
  then show ?case by (simp add: step)
qed

lemma fold_score_check_total:
  "fst (snd (fold (score_check w owner name t) cs acc))
     = fst (snd acc)
       + sum_list (map (\<lambda>kc. awardedPoints (recorded (snd kc) (run (snd kc) w owner name t))) cs)"
  by (induction cs arbitrary: acc) (simp_all add: score_check_total)

lemma results_scoreTeam_with:
  assumes "distinct (map fst checks)"
  shows "results (scoreTeam_with checks w t)
     = map (\<lambda>kc. (fst kc, recorded (snd kc) (run (snd kc) w (owner_of (repo t)) (name_of (repo t)) t)))
         checks"
  using fold_score_check_results [OF assms, of "([], 0, 0)" w "owner_of (repo t)" "name_of (repo t)" t]
  by (simp add: scoreTeam_with_sel run_checks_def)

lemma total_scoreTeam_with:
  "total (scoreTeam_with checks w t)
     = sum_list (map (\<lambda>kc. awardedPoints
          (recorded (snd kc) (run (snd kc) w (owner_of (repo t)) (name_of (repo t)) t))) checks)"
  by (simp add: scoreTeam_with_sel run_checks_def fold_score_check_total)

lemma map_of_recorded:
  "distinct (map fst cs) \<Longrightarrow> (key, chk) \<in> set cs \<Longrightarrow>
   map_of (map (\<lambda>kc. (fst kc, f (snd kc))) cs) key = Some (f chk)"
  by (induction cs) (auto simp: rev_image_eqI)

lemma distinct_CHECKS: "distinct (map fst CHECKS)"
  by (simp add: CHECKS_def)

text \<open>
  C4, as the code has it. For a registry with distinct ids: the results hold one entry for
  every check, in the registry's order, and each entry is what that check's own run gave,
  whatever the other checks did; a check whose run throws an error with message \<open>msg\<close> is
  recorded as failed with \<open>detail = "Error: " @ msg\<close> and awards no points; the total is
  the sum of the awarded points; and every roster record is scored. (The detail is
  "Error: ...", not "internal error: ...".)
\<close>

theorem probe_errors_are_isolated:
  assumes "distinct (map fst checks)"
  shows "results (scoreTeam_with checks w t)
           = map (\<lambda>kc. (fst kc,
                recorded (snd kc) (run (snd kc) w (owner_of (repo t)) (name_of (repo t)) t))) checks
       \<and> map fst (results (scoreTeam_with checks w t)) = map fst checks
       \<and> (\<forall>key chk msg.
            (key, chk) \<in> set checks
            \<and> run chk w (owner_of (repo t)) (name_of (repo t)) t = Inl msg
            \<longrightarrow> map_of (results (scoreTeam_with checks w t)) key
                  = Some \<lparr>pass = False, detail = ''Error: '' @ msg, points = check_points chk,
                          label = check_label chk, category = check_category chk\<rparr>
                \<and> awardedPoints \<lparr>pass = False, detail = ''Error: '' @ msg,
                     points = check_points chk, label = check_label chk,
                     category = check_category chk\<rparr> = 0)
       \<and> total (scoreTeam_with checks w t)
           = sum_list (map (\<lambda>kr. awardedPoints (snd kr)) (results (scoreTeam_with checks w t)))
       \<and> map unranked (teams (main_with checks w now roster))
           = js_sort by_total_desc (map (scoreTeam_with checks w) roster)"
proof -
  let ?o = "owner_of (repo t)" and ?n = "name_of (repo t)"
  let ?f = "\<lambda>chk. recorded chk (run chk w ?o ?n t)"
  have a: "results (scoreTeam_with checks w t) = map (\<lambda>kc. (fst kc, ?f (snd kc))) checks"
    by (rule results_scoreTeam_with [OF assms])
  have b: "map fst (results (scoreTeam_with checks w t)) = map fst checks"
    unfolding a by (simp add: comp_def)
  have c: "map_of (results (scoreTeam_with checks w t)) key
             = Some \<lparr>pass = False, detail = ''Error: '' @ msg, points = check_points chk,
                     label = check_label chk, category = check_category chk\<rparr>"
    if "(key, chk) \<in> set checks" and "run chk w ?o ?n t = Inl msg" for key chk msg
  proof -
    have "map_of (results (scoreTeam_with checks w t)) key = Some (?f chk)"
      unfolding a using assms that(1) by (rule map_of_recorded)
    then show ?thesis by (simp add: that(2) recorded_def)
  qed
  have d: "total (scoreTeam_with checks w t)
           = sum_list (map (\<lambda>kr. awardedPoints (snd kr)) (results (scoreTeam_with checks w t)))"
    unfolding a by (simp add: total_scoreTeam_with comp_def)
  have e: "map unranked (teams (main_with checks w now roster))
           = js_sort by_total_desc (map (scoreTeam_with checks w) roster)"
    by (simp only: teams_main_with rank_scores_def map_unranked_add_rank)
  from a b c d e show ?thesis by (simp add: awardedPoints_def)
qed

lemma pipeline_exists_down:
  "pipeline_exists_run down_remote owner name t = Inl ''fetch failed''"
  by (simp add: pipeline_exists_run_def gh_tree_def await_def down_remote_def)

lemma pe_in: "(''pipeline_exists'', snd (hd CHECKS)) \<in> set CHECKS"
  by (simp add: CHECKS_def)

theorem probe_errors_are_isolated_witness:
  "distinct (map fst CHECKS)
   \<and> map fst (results (scoreTeam down_remote team_a))
       = [''pipeline_exists'', ''pipeline_green'', ''lint_pass'', ''no_secrets_in_code'',
          ''tests_exist'', ''tests_pass'', ''coverage_70'', ''dockerfile_exists'',
          ''docker_builds'', ''security_scan'', ''ghcr_published'', ''quality_gate'',
          ''deployed'', ''branch_protection'', ''auto_deploy'', ''multi_env'',
          ''pipeline_fast'', ''dependabot'']
   \<and> map_of (results (scoreTeam down_remote team_a)) ''pipeline_exists''
       = Some \<lparr>pass = False, detail = ''Error: fetch failed'', points = 5,
               label = ''Pipeline exists'', category = ''fundamentals''\<rparr>"
proof -
  note th = probe_errors_are_isolated [OF distinct_CHECKS, of down_remote team_a]
  have keys: "map fst CHECKS = [''pipeline_exists'', ''pipeline_green'', ''lint_pass'', ''no_secrets_in_code'',
          ''tests_exist'', ''tests_pass'', ''coverage_70'', ''dockerfile_exists'',
          ''docker_builds'', ''security_scan'', ''ghcr_published'', ''quality_gate'',
          ''deployed'', ''branch_protection'', ''auto_deploy'', ''multi_env'',
          ''pipeline_fast'', ''dependabot'']"
    by (simp add: CHECKS_def)
  from th have a: "map fst (results (scoreTeam down_remote team_a)) = map fst CHECKS"
    unfolding scoreTeam_def by blast
  have r: "run (snd (hd CHECKS)) down_remote (owner_of (repo team_a)) (name_of (repo team_a)) team_a
             = Inl ''fetch failed''"
    by (simp add: CHECKS_def pipeline_exists_down)
  from th pe_in r
  have "map_of (results (scoreTeam down_remote team_a)) ''pipeline_exists''
       = Some \<lparr>pass = False, detail = ''Error: '' @ ''fetch failed'', points = check_points (snd (hd CHECKS)),
               label = check_label (snd (hd CHECKS)), category = check_category (snd (hd CHECKS))\<rparr>"
    unfolding scoreTeam_def by blast
  then have b: "map_of (results (scoreTeam down_remote team_a)) ''pipeline_exists''
       = Some \<lparr>pass = False, detail = ''Error: fetch failed'', points = 5,
               label = ''Pipeline exists'', category = ''fundamentals''\<rparr>"
    by (simp add: CHECKS_def)
  from distinct_CHECKS a b show ?thesis unfolding keys by blast
qed

lemma scoreTeam_down_first:
  "hd (results (scoreTeam down_remote team_a))
     = (''pipeline_exists'', \<lparr>pass = False, detail = ''Error: fetch failed'', points = 5,
               label = ''Pipeline exists'', category = ''fundamentals''\<rparr>)"
proof -
  have "results (scoreTeam down_remote team_a)
          = map (\<lambda>kc. (fst kc, recorded (snd kc)
              (run (snd kc) down_remote (owner_of (repo team_a)) (name_of (repo team_a)) team_a)))
              CHECKS"
    unfolding scoreTeam_def by (rule results_scoreTeam_with [OF distinct_CHECKS])
  then show ?thesis
    by (simp add: recorded_def CHECKS_def pipeline_exists_down)
qed

text \<open>
  C4 as stated fails: when the code host cannot be reached the first check throws
  "fetch failed", and its recorded detail is "Error: fetch failed".
\<close>

theorem internal_error_detail_counterexample:
  "run (snd (hd CHECKS)) down_remote (owner_of (repo team_a)) (name_of (repo team_a)) team_a
     = Inl ''fetch failed''
   \<and> detail (snd (hd (results (scoreTeam down_remote team_a)))) = ''Error: fetch failed''
   \<and> detail (snd (hd (results (scoreTeam down_remote team_a)))) \<noteq> ''internal error: fetch failed''"
  by (simp add: scoreTeam_down_first CHECKS_def pipeline_exists_down)

text \<open>On a code host that cannot be reached, every check but \<open>deployed\<close> throws.\<close>

lemma runs_on_down_remote:
  "pipeline_exists_run down_remote owner name t = Inl ''fetch failed''"
  "pipeline_green_run down_remote owner name t = Inl ''fetch failed''"
  "lint_pass_run down_remote owner name t = Inl ''fetch failed''"
  "no_secrets_in_code_run down_remote owner name t = Inl ''fetch failed''"
  "tests_exist_run down_remote owner name t = Inl ''fetch failed''"
  "tests_pass_run down_remote owner name t = Inl ''fetch failed''"
  "coverage_70_run down_remote owner name t = Inl ''fetch failed''"
  "dockerfile_exists_run down_remote owner name t = Inl ''fetch failed''"
  "docker_builds_run down_remote owner name t = Inl ''fetch failed''"
  "security_scan_run down_remote owner name t = Inl ''fetch failed''"
  "ghcr_published_run down_remote owner name t = Inl ''fetch failed''"
  "quality_gate_run down_remote owner name t = Inl ''fetch failed''"
  "branch_protection_run down_remote owner name t = Inl ''fetch failed''"
  "auto_deploy_run down_remote owner name t = Inl ''fetch failed''"
  "multi_env_run down_remote owner name t = Inl ''fetch failed''"
  "pipeline_fast_run down_remote owner name t = Inl ''fetch failed''"
  "dependabot_run down_remote owner name t = Inl ''fetch failed''"
  by (simp_all add: pipeline_exists_run_def pipeline_green_run_def lint_pass_run_def
      no_secrets_in_code_run_def secret_files_def tests_exist_run_def tests_pass_run_def
      coverage_70_run_def dockerfile_exists_run_def docker_builds_run_def security_scan_run_def
      ghcr_published_run_def quality_gate_run_def branch_protection_run_def auto_deploy_run_def
      multi_env_run_def pipeline_fast_run_def dependabot_run_def
      gh_tree_def ghRaw_def gh_runs_def gh_packages_def gh_protection_def await_def down_remote_def)

text \<open>Such a repository is still listed: rank 1 of 1, with 0 of 130 points.\<close>

lemma unreachable_host_scores_zero:
  "map (\<lambda>e. (team e, total e, maxTotal e, rank e, map (\<lambda>kr. pass (snd kr)) (results e)))
     (teams (main down_remote now [team_a]))
     = [(''A'', 0, 130, 1, replicate 18 False)]"
proof -
  let ?s = "scoreTeam down_remote team_a"
  have res: "results ?s
          = map (\<lambda>kc. (fst kc, recorded (snd kc)
              (run (snd kc) down_remote (owner_of (repo team_a)) (name_of (repo team_a)) team_a)))
              CHECKS"
    unfolding scoreTeam_def by (rule results_scoreTeam_with [OF distinct_CHECKS])
  have p: "map (\<lambda>kr. pass (snd kr)) (results ?s) = replicate 18 False"
    unfolding res
    by (simp add: CHECKS_def recorded_def runs_on_down_remote deployed_run_def team_a_def
        eval_nat_numeral)
  have t: "total ?s = 0"
    unfolding scoreTeam_def total_scoreTeam_with
    by (simp add: CHECKS_def recorded_def awardedPoints_def runs_on_down_remote deployed_run_def
        team_a_def)
  have m: "maxTotal ?s = 130"
    by (simp add: scoreTeam_def maxTotal_scoreTeam_with CHECKS_sum)
  have n: "team ?s = ''A''"
    by (simp add: scoreTeam_def scoreTeam_with_sel team_a_def)
  have "teams (main down_remote now [team_a]) = add_rank 0 [?s]"
    by (simp add: teams_main rank_scores_def js_sort_def)
  then show ?thesis
    by (simp add: p t m n)
qed

section \<open>Properties of the checks\<close>

text \<open>
  C7. Without a deploy URL (the field is missing or empty: \<^verbatim>\<open>!team.deploy_url\<close>)
  \<open>deployed\<close> fails at once, with the detail that no deploy URL was given, which the code
  words "No deploy_url in teams.json"; no request is made, since the verdict is the same
  whatever the requests would answer. With a URL it gives a verdict (an error thrown by the
  request, the timeout among them, is caught inside the check) and passes exactly when the
  request answers with a status from 200 to 299: status 200 passes and status 500 fails.
\<close>

theorem deployed_verdict:
  "(deploy_url t = None \<or> deploy_url t = Some []
      \<longrightarrow> deployed_run w owner name t
            = Inr \<lparr>pass = False, detail = ''No deploy_url in teams.json''\<rparr>
          \<and> (\<forall>h. deployed_run (w\<lparr>http := h\<rparr>) owner name t = deployed_run w owner name t))
   \<and> (deploy_url t = Some url \<and> url \<noteq> []
      \<longrightarrow> (\<exists>v. deployed_run w owner name t = Inr v
             \<and> (pass v \<longleftrightarrow> (\<exists>code. http w url = Inr code \<and> 200 \<le> code \<and> code \<le> 299)))
          \<and> (http w url = Inr 200 \<longrightarrow> (\<exists>v. deployed_run w owner name t = Inr v \<and> pass v))
          \<and> (http w url = Inr 500
                \<longrightarrow> (\<exists>v. deployed_run w owner name t = Inr v \<and> \<not> pass v)))"
  by (auto simp: deployed_run_def split: option.splits sum.splits)

theorem deployed_verdict_witness:
  "deployed_run down_remote ''x'' ''y'' team_a
     = Inr \<lparr>pass = False, detail = ''No deploy_url in teams.json''\<rparr>
   \<and> deployed_run (answering 200) ''x'' ''y'' team_a
     = Inr \<lparr>pass = False, detail = ''No deploy_url in teams.json''\<rparr>
   \<and> (\<exists>v. deployed_run (answering 200) ''x'' ''z'' team_deployed = Inr v \<and> pass v)
   \<and> (\<exists>v. deployed_run (answering 500) ''x'' ''z'' team_deployed = Inr v \<and> \<not> pass v)
   \<and> (\<exists>v. deployed_run down_remote ''x'' ''z'' team_deployed = Inr v \<and> \<not> pass v)"
proof -
  have a: "deployed_run down_remote ''x'' ''y'' team_a
     = Inr \<lparr>pass = False, detail = ''No deploy_url in teams.json''\<rparr>"
    using deployed_verdict [of team_a down_remote "''x''" "''y''"] by (simp add: team_a_def)
  have a': "deployed_run (answering 200) ''x'' ''y'' team_a
     = Inr \<lparr>pass = False, detail = ''No deploy_url in teams.json''\<rparr>"
    using deployed_verdict [of team_a "answering 200" "''x''" "''y''"] by (simp add: team_a_def)
  have u: "deploy_url team_deployed = Some ''https://example.test/health''
           \<and> ''https://example.test/health'' \<noteq> []"
    by (simp add: team_deployed_def)
  have b: "\<exists>v. deployed_run (answering 200) ''x'' ''z'' team_deployed = Inr v \<and> pass v"
    using deployed_verdict [of team_deployed "answering 200" "''x''" "''z''" "''https://example.test/health''"] u
    by (auto simp: answering_def)
  have c: "\<exists>v. deployed_run (answering 500) ''x'' ''z'' team_deployed = Inr v \<and> \<not> pass v"
    using deployed_verdict [of team_deployed "answering 500" "''x''" "''z''" "''https://example.test/health''"] u
    by (auto simp: answering_def)
  have d: "\<exists>v. deployed_run down_remote ''x'' ''z'' team_deployed = Inr v \<and> \<not> pass v"
    using deployed_verdict [of team_deployed down_remote "''x''" "''z''" "''https://example.test/health''"] u
    by (auto simp: down_remote_def)
  from a a' b c d show ?thesis by blast
qed

lemma totalMs_of_sum: "totalMs_of rs = sum_list (map (\<lambda>r. updated_at r - created_at r) rs)"
proof -
  have "fold (\<lambda>r acc. acc + (updated_at r - created_at r)) rs a
          = a + sum_list (map (\<lambda>r. updated_at r - created_at r) rs)" for a
    by (induction rs arbitrary: a) simp_all
  then show ?thesis by (simp add: totalMs_of_def)
qed

lemma avg_under_three: "0 < n \<Longrightarrow> ((x::rat) / n / 60000 < 3) = (x / n < 180000)"
  by (simp add: field_simps)

lemma pipeline_fast_nonempty:
  assumes "gh_runs w owner name True 3 = Inr (Some rs)" and "rs \<noteq> []"
  shows "\<exists>d. pipeline_fast_run w owner name t
           = Inr \<lparr>pass = (rat_of_int (totalMs_of rs) / rat_of_nat (length rs) / 60000 < 3),
                  detail = d\<rparr>"
proof (cases rs)
  case Nil
  with assms show ?thesis by simp
next
  case (Cons r rest)
  with assms(1) show ?thesis
    by (simp add: pipeline_fast_run_def await_def Let_def del: of_nat_Suc)
qed

text \<open>
  C8. When the run history can be read, let \<open>recent\<close> be the newest three successful runs
  on \<^verbatim>\<open>main\<close> (fewer when fewer exist). With none, \<open>pipeline_fast\<close> gives the failed
  verdict "No successful runs"; otherwise it gives a verdict that passes exactly when the
  mean of \<open>updated_at - created_at\<close> over \<open>recent\<close> is under 180000 ms, three minutes.
\<close>

theorem pipeline_fast_verdict:
  assumes "runs w owner name = Inr hist"
  shows "let recent = take 3 (filter (\<lambda>r. conclusion r = Some ''success'')
                               (case hist of None \<Rightarrow> [] | Some rs \<Rightarrow> rs))
         in (recent = []
               \<longrightarrow> pipeline_fast_run w owner name t
                     = Inr \<lparr>pass = False, detail = ''No successful runs''\<rparr>)
            \<and> (recent \<noteq> []
               \<longrightarrow> (\<exists>v. pipeline_fast_run w owner name t = Inr v
                      \<and> (pass v \<longleftrightarrow>
                           rat_of_int (sum_list (map (\<lambda>r. updated_at r - created_at r) recent))
                             / rat_of_nat (length recent) < 180000)))"
proof (cases hist)
  case None
  with assms show ?thesis
    by (simp add: pipeline_fast_run_def gh_runs_def await_def)
next
  case (Some rs)
  let ?recent = "take 3 (filter (\<lambda>r. conclusion r = Some ''success'') rs)"
  have g: "gh_runs w owner name True 3 = Inr (Some ?recent)"
    using assms Some by (simp add: gh_runs_def await_def)
  have empty: "pipeline_fast_run w owner name t
                 = Inr \<lparr>pass = False, detail = ''No successful runs''\<rparr>" if "?recent = []"
    using g that by (simp add: pipeline_fast_run_def await_def)
  have nonempty: "\<exists>v. pipeline_fast_run w owner name t = Inr v
                      \<and> (pass v \<longleftrightarrow>
                           rat_of_int (sum_list (map (\<lambda>r. updated_at r - created_at r) ?recent))
                             / rat_of_nat (length ?recent) < 180000)" if ne: "?recent \<noteq> []"
  proof -
    from ne have "0 < rat_of_nat (length ?recent)" by simp
    note avg = avg_under_three [OF this]
    from pipeline_fast_nonempty [OF g ne, of t] obtain d where
      "pipeline_fast_run w owner name t
           = Inr \<lparr>pass = (rat_of_int (totalMs_of ?recent) / rat_of_nat (length ?recent) / 60000 < 3),
                  detail = d\<rparr>" by blast
    then show ?thesis
      unfolding avg totalMs_of_sum by simp
  qed
  from empty nonempty Some show ?thesis by (simp add: Let_def)
qed

lemma recent_sample:
  "take 3 (filter (\<lambda>r. conclusion r = Some ''success'') sample_history)
     = [run_of 5 ''success'' 100000, run_of 3 ''success'' 200000, run_of 2 ''success'' 120000]"
  by (simp add: sample_history_def run_of_def)

theorem pipeline_fast_verdict_witness:
  "(\<exists>v. pipeline_fast_run fast_remote ''x'' ''y'' team_a = Inr v \<and> pass v)
   \<and> (\<exists>v. pipeline_fast_run slow_remote ''x'' ''y'' team_a = Inr v \<and> \<not> pass v)
   \<and> pipeline_fast_run idle_remote ''x'' ''y'' team_a
       = Inr \<lparr>pass = False, detail = ''No successful runs''\<rparr>"
proof -
  have h1: "runs fast_remote ''x'' ''y'' = Inr (Some sample_history)"
    by (simp add: fast_remote_def with_runs_def)
  have a: "\<exists>v. pipeline_fast_run fast_remote ''x'' ''y'' team_a = Inr v \<and> pass v"
    using pipeline_fast_verdict [OF h1, of team_a]
    by (simp add: recent_sample) (simp add: run_of_def)
  have h2: "runs slow_remote ''x'' ''y'' = Inr (Some [run_of 1 ''success'' 200000])"
    by (simp add: slow_remote_def with_runs_def)
  have b: "\<exists>v. pipeline_fast_run slow_remote ''x'' ''y'' team_a = Inr v \<and> \<not> pass v"
    using pipeline_fast_verdict [OF h2, of team_a]
    by (simp add: run_of_def)
  have h3: "runs idle_remote ''x'' ''y'' = Inr (Some [run_of 1 ''failure'' 1000])"
    by (simp add: idle_remote_def with_runs_def)
  have c: "pipeline_fast_run idle_remote ''x'' ''y'' team_a
       = Inr \<lparr>pass = False, detail = ''No successful runs''\<rparr>"
    using pipeline_fast_verdict [OF h3, of team_a]
    by (simp add: run_of_def)
  from a b c show ?thesis by blast
qed

lemma gh_runs_latest:
  "runs w owner name = Inr (Some (r # hist)) \<Longrightarrow> gh_runs w owner name False 1 = Inr (Some [r])"
  by (simp add: gh_runs_def await_def)

lemma is_test_job_examples:
  "is_test_job \<lparr>job_name = ''build-docs'', job_conclusion = c\<rparr>"
  "is_test_job \<lparr>job_name = ''Unit tests'', job_conclusion = c\<rparr>"
  "\<not> is_test_job \<lparr>job_name = ''deploy'', job_conclusion = c\<rparr>"
  by (simp_all add: is_test_job_def toLowerCase_def lower_char_def startsWith_def)

lemma green_remote_runs:
  "runs (green_remote js) ''x'' ''y'' = Inr (Some (run_of 7 ''success'' 60000 # []))"
  "run_jobs (green_remote js) ''x'' ''y'' (run_id (run_of 7 ''success'' 60000)) = Inr (Some js)"
  by (simp_all add: green_remote_def with_jobs_def with_runs_def)

lemma find_examples:
  "find is_test_job skipped_then_passed
     = Some \<lparr>job_name = ''build-docs'', job_conclusion = Some ''skipped''\<rparr>"
  "find is_test_job (rev skipped_then_passed)
     = Some \<lparr>job_name = ''Unit tests'', job_conclusion = Some ''success''\<rparr>"
  by (simp_all add: skipped_then_passed_def is_test_job_examples)

text \<open>
  What \<open>tests_pass\<close> does, on every remote state: it passes exactly when the latest run
  can be read and concluded with success, the jobs of that run can be read, and the first
  of them whose name contains "test", "ci" or "build" concluded with success.
\<close>

lemma tests_pass_passes_iff:
  "(\<exists>v. tests_pass_run w owner name t = Inr v \<and> pass v) \<longleftrightarrow>
     (\<exists>r rest js j.
        runs w owner name = Inr (Some (r # rest))
        \<and> conclusion r = Some ''success''
        \<and> run_jobs w owner name (run_id r) = Inr (Some js)
        \<and> find is_test_job js = Some j
        \<and> job_conclusion j = Some ''success'')"
proof (cases "runs w owner name")
  case (Inl e)
  then show ?thesis by (simp add: tests_pass_run_def gh_runs_def await_def)
next
  case (Inr hist)
  show ?thesis
  proof (cases hist)
    case None
    with Inr show ?thesis by (simp add: tests_pass_run_def gh_runs_def await_def)
  next
    case (Some rs)
    show ?thesis
    proof (cases rs)
      case Nil
      with Inr Some show ?thesis by (simp add: tests_pass_run_def gh_runs_def await_def)
    next
      case (Cons r rest)
      from Inr Some Cons have "runs w owner name = Inr (Some (r # rest))" by simp
      then have g: "gh_runs w owner name False 1 = Inr (Some [r])" by (rule gh_runs_latest)
      show ?thesis
        unfolding tests_pass_run_def g
        using Inr Some Cons
        by (auto simp: await_def gh_jobs_def split: sum.splits option.splits)
    qed
  qed
qed

text \<open>
  C5 at its failing input. The latest run concluded with success and its job "Unit tests"
  concluded with success, so C5 says pass, and so do the comment in the source ("If
  pipeline is green and tests exist in pipeline, tests pass") and the README. But the job
  list starts with "build-docs", which was skipped: \<open>tests_pass\<close> judges the first job
  with a matching name only, and fails. With the same two jobs in the other order it passes.
\<close>

theorem tests_pass_judges_first_job_only:
  "conclusion (run_of 7 ''success'' 60000) = Some ''success''
   \<and> runs (green_remote skipped_then_passed) ''x'' ''y'' = Inr (Some [run_of 7 ''success'' 60000])
   \<and> run_jobs (green_remote skipped_then_passed) ''x'' ''y'' 7 = Inr (Some skipped_then_passed)
   \<and> \<lparr>job_name = ''Unit tests'', job_conclusion = Some ''success''\<rparr> \<in> set skipped_then_passed
   \<and> is_test_job \<lparr>job_name = ''Unit tests'', job_conclusion = Some ''success''\<rparr>
   \<and> tests_pass_run (green_remote skipped_then_passed) ''x'' ''y'' team_a
       = Inr \<lparr>pass = False,
              detail = ''Job '' @ [CHR 0x22] @ ''build-docs'' @ [CHR 0x22] @ '': skipped''\<rparr>
   \<and> tests_pass_run (green_remote (rev skipped_then_passed)) ''x'' ''y'' team_a
       = Inr \<lparr>pass = True,
              detail = ''Job '' @ [CHR 0x22] @ ''Unit tests'' @ [CHR 0x22] @ '': success''\<rparr>"
proof -
  have c: "conclusion (run_of 7 ''success'' 60000) = Some ''success''"
    by (simp add: run_of_def)
  have r: "gh_runs (green_remote js) ''x'' ''y'' False 1
             = Inr (Some [run_of 7 ''success'' 60000])" for js
    by (rule gh_runs_latest) (rule green_remote_runs)
  have v: "tests_pass_run (green_remote skipped_then_passed) ''x'' ''y'' team_a
       = Inr \<lparr>pass = False,
              detail = ''Job '' @ [CHR 0x22] @ ''build-docs'' @ [CHR 0x22] @ '': skipped''\<rparr>"
    unfolding tests_pass_run_def r
    using green_remote_runs(2) [of skipped_then_passed]
    by (simp add: await_def gh_jobs_def find_examples show_conclusion_def c)
  have v': "tests_pass_run (green_remote (rev skipped_then_passed)) ''x'' ''y'' team_a
       = Inr \<lparr>pass = True,
              detail = ''Job '' @ [CHR 0x22] @ ''Unit tests'' @ [CHR 0x22] @ '': success''\<rparr>"
    unfolding tests_pass_run_def r
    using green_remote_runs(2) [of "rev skipped_then_passed"]
    by (simp add: await_def gh_jobs_def find_examples show_conclusion_def c)
  have j: "run_jobs (green_remote skipped_then_passed) ''x'' ''y'' 7 = Inr (Some skipped_then_passed)"
    by (simp add: green_remote_def with_jobs_def)
  show ?thesis
    using v v' j green_remote_runs(1) [of skipped_then_passed]
    by (simp add: is_test_job_examples) (simp add: run_of_def skipped_then_passed_def)
qed













lemma endsWith_iff: "endsWith s q \<longleftrightarrow> (\<exists>u. s = u @ q)"
proof
  assume "endsWith s q"
  then have "s = take (length s - length q) s @ q"
    by (metis append_take_drop_id endsWith_def)
  then show "\<exists>u. s = u @ q" ..
next
  assume "\<exists>u. s = u @ q"
  then show "endsWith s q" by (auto simp: endsWith_def)
qed

lemma yaml_is_not_yml: "endsWith p ''.yaml'' \<Longrightarrow> \<not> endsWith p ''.yml''"
proof
  assume "endsWith p ''.yaml''" and "endsWith p ''.yml''"
  then obtain u v where "p = u @ ''.yaml''" and "p = v @ ''.yml''"
    unfolding endsWith_iff by blast
  then have "(u @ ''.'') @ ''yaml'' = v @ ''.yml''" by simp
  then have "''yaml'' = ''.yml''"
    by (subst (asm) append_eq_append_conv) simp_all
  then show False by simp
qed

lemma no_workflows:
  assumes "\<forall>f \<in> set tr. startsWith (path f) ''.github/workflows/'' \<longrightarrow> endsWith (path f) ''.yaml''"
  shows "filter is_workflow tr = []"
  using assms by (auto simp: filter_empty_conv is_workflow_def dest: yaml_is_not_yml)

text \<open>
  C10. When the tree can be read and every path under \<^verbatim>\<open>.github/workflows/\<close> ends
  with \<^verbatim>\<open>.yaml\<close>: \<open>pipeline_exists\<close> fails with "0 workflow(s) found"; the workflow
  loop of every probe finds nothing, whatever its condition; lint, tests-exist, coverage,
  docker build, security scan, auto-deploy and multi-environment fail; and the quality
  gate is left with its check of the Sonar files in the tree.
\<close>

theorem yaml_workflows_are_not_counted:
  assumes "gh_tree w owner name = Inr (Some tr)"
    and "\<forall>f \<in> set tr. startsWith (path f) ''.github/workflows/'' \<longrightarrow> endsWith (path f) ''.yaml''"
  shows "pipeline_exists_run w owner name t = Inr \<lparr>pass = False, detail = ''0 workflow(s) found''\<rparr>
     \<and> (\<forall>cond. first_workflow w owner name cond (filter is_workflow tr) = Inr None)
     \<and> lint_pass_run w owner name t
         = Inr \<lparr>pass = False, detail = ''No lint step found in workflows''\<rparr>
     \<and> (\<exists>v. tests_exist_run w owner name t = Inr v \<and> \<not> pass v)
     \<and> coverage_70_run w owner name t
         = Inr \<lparr>pass = False, detail = ''No coverage step found in CI''\<rparr>
     \<and> docker_builds_run w owner name t
         = Inr \<lparr>pass = False, detail = ''No docker build step in CI''\<rparr>
     \<and> security_scan_run w owner name t
         = Inr \<lparr>pass = False, detail = ''No security scan found in workflows''\<rparr>
     \<and> quality_gate_run w owner name t
         = Inr (if length (filter is_sonar_file tr) > 0
                then \<lparr>pass = True, detail = ''Sonar config found''\<rparr>
                else \<lparr>pass = False, detail = ''No quality gate configured''\<rparr>)
     \<and> auto_deploy_run w owner name t
         = Inr \<lparr>pass = False, detail = ''No auto-deploy workflow found''\<rparr>
     \<and> multi_env_run w owner name t
         = Inr \<lparr>pass = False, detail = ''Single environment or none''\<rparr>"
proof -
  note none = no_workflows [OF assms(2)]
  have c1: "pipeline_exists_run w owner name t
              = Inr \<lparr>pass = False, detail = ''0 workflow(s) found''\<rparr>"
    by (simp add: pipeline_exists_run_def assms(1) await_def none digit_def)
  have c2: "\<forall>cond. first_workflow w owner name cond (filter is_workflow tr) = Inr None"
    by (simp add: none)
  have c3: "lint_pass_run w owner name t
         = Inr \<lparr>pass = False, detail = ''No lint step found in workflows''\<rparr>"
    by (simp add: lint_pass_run_def assms(1) await_def none)
  have c4: "\<exists>v. tests_exist_run w owner name t = Inr v \<and> \<not> pass v"
    by (simp add: tests_exist_run_def assms(1) await_def none Let_def)
  have c5: "coverage_70_run w owner name t
         = Inr \<lparr>pass = False, detail = ''No coverage step found in CI''\<rparr>"
    by (simp add: coverage_70_run_def assms(1) await_def none)
  have c6: "docker_builds_run w owner name t
         = Inr \<lparr>pass = False, detail = ''No docker build step in CI''\<rparr>"
    by (simp add: docker_builds_run_def assms(1) await_def none)
  have c7: "security_scan_run w owner name t
         = Inr \<lparr>pass = False, detail = ''No security scan found in workflows''\<rparr>"
    by (simp add: security_scan_run_def assms(1) await_def none)
  have c8: "quality_gate_run w owner name t
         = Inr (if length (filter is_sonar_file tr) > 0
                then \<lparr>pass = True, detail = ''Sonar config found''\<rparr>
                else \<lparr>pass = False, detail = ''No quality gate configured''\<rparr>)"
    by (simp add: quality_gate_run_def assms(1) await_def none)
  have c9: "auto_deploy_run w owner name t
         = Inr \<lparr>pass = False, detail = ''No auto-deploy workflow found''\<rparr>"
    by (simp add: auto_deploy_run_def assms(1) await_def none)
  have c10: "multi_env_run w owner name t
         = Inr \<lparr>pass = False, detail = ''Single environment or none''\<rparr>"
    by (simp add: multi_env_run_def assms(1) await_def none)
  from c1 c2 c3 c4 c5 c6 c7 c8 c9 c10 show ?thesis by blast
qed

lemma yaml_remote_tree:
  "gh_tree yaml_remote ''x'' ''y''
     = Inr (Some [\<lparr>path = ''.github/workflows/ci.yaml''\<rparr>, \<lparr>path = ''README.md''\<rparr>])"
  by (simp add: gh_tree_def yaml_remote_def with_tree_def)

lemma yaml_remote_paths:
  "\<forall>f \<in> set [\<lparr>path = ''.github/workflows/ci.yaml''\<rparr>, \<lparr>path = ''README.md''\<rparr>].
     startsWith (path f) ''.github/workflows/'' \<longrightarrow> endsWith (path f) ''.yaml''"
  by (simp add: startsWith_def endsWith_def)

theorem yaml_workflows_are_not_counted_witness:
  "startsWith ''.github/workflows/ci.yaml'' ''.github/workflows/''
   \<and> endsWith ''.github/workflows/ci.yaml'' ''.yaml''
   \<and> pipeline_exists_run yaml_remote ''x'' ''y'' team_a
       = Inr \<lparr>pass = False, detail = ''0 workflow(s) found''\<rparr>
   \<and> lint_pass_run yaml_remote ''x'' ''y'' team_a
       = Inr \<lparr>pass = False, detail = ''No lint step found in workflows''\<rparr>
   \<and> quality_gate_run yaml_remote ''x'' ''y'' team_a
       = Inr \<lparr>pass = False, detail = ''No quality gate configured''\<rparr>"
proof -
  have s: "startsWith ''.github/workflows/ci.yaml'' ''.github/workflows/''
   \<and> endsWith ''.github/workflows/ci.yaml'' ''.yaml''"
    by (simp add: startsWith_def endsWith_def)
  have q: "\<not> length (filter is_sonar_file
              [\<lparr>path = ''.github/workflows/ci.yaml''\<rparr>, \<lparr>path = ''README.md''\<rparr>]) > 0"
    by (simp add: is_sonar_file_def startsWith_def)
  from yaml_workflows_are_not_counted [OF yaml_remote_tree yaml_remote_paths, of team_a] q s
  show ?thesis by simp
qed

text \<open>The conditions that lower the content first depend on the lowered content only.\<close>

lemma content_conditions_ignore_case:
  assumes "toLowerCase a = toLowerCase b"
  shows "lint_cond a = lint_cond b"
    and "tests_exist_cond a = tests_exist_cond b"
    and "found_keywords ks a = found_keywords ks b"
    and "auto_deploy_cond a = auto_deploy_cond b"
    and "multi_env_cond a = multi_env_cond b"
  using assms
  by (simp_all add: lint_cond_def tests_exist_cond_def found_keywords_def auto_deploy_cond_def
      multi_env_cond_def)

lemma gh_tree_recase: "gh_tree (recase f w) owner name = gh_tree w owner name"
  by (simp add: gh_tree_def recase_def)

lemma ghRaw_recase:
  "ghRaw (recase f w) owner name p
     = (case ghRaw w owner name p of Inl e \<Rightarrow> Inl e | Inr c \<Rightarrow> Inr (map_option f c))"
  by (simp add: ghRaw_def recase_def)

lemma same_lower_empty:
  assumes "toLowerCase a = toLowerCase b"
  shows "a = [] \<longleftrightarrow> b = []"
  using assms by (metis toLowerCase_def map_is_Nil_conv)

lemma first_workflow_recase:
  assumes low: "\<And>c. toLowerCase (f c) = toLowerCase c"
    and cond: "\<And>c. cond (f c) = cond c"
  shows "first_workflow (recase f w) owner name cond wfs
           = (case first_workflow w owner name cond wfs of
                Inl e \<Rightarrow> Inl e
              | Inr None \<Rightarrow> Inr None
              | Inr (Some (wfile, c)) \<Rightarrow> Inr (Some (wfile, f c)))"
proof (induction wfs)
  case Nil
  show ?case by simp
next
  case (Cons wfile wfs)
  have e: "f c = [] \<longleftrightarrow> c = []" for c
    using low [of c] by (rule same_lower_empty)
  show ?case
    by (simp add: ghRaw_recase Cons e cond split: sum.splits option.splits)
qed

text \<open>
  Rewriting the raw files without changing their lowered contents leaves the verdicts of the
  checks that lower the content as they are.
\<close>

lemma lowered_checks_ignore_case:
  assumes low: "\<And>c. toLowerCase (f c) = toLowerCase c"
  shows "lint_pass_run (recase f w) owner name t = lint_pass_run w owner name t"
    and "security_scan_run (recase f w) owner name t = security_scan_run w owner name t"
    and "quality_gate_run (recase f w) owner name t = quality_gate_run w owner name t"
    and "auto_deploy_run (recase f w) owner name t = auto_deploy_run w owner name t"
    and "multi_env_run (recase f w) owner name t = multi_env_run w owner name t"
proof -
  note conds = content_conditions_ignore_case [OF low]
  have fw: "first_workflow (recase f w) owner name cond wfs
           = (case first_workflow w owner name cond wfs of
                Inl e \<Rightarrow> Inl e
              | Inr None \<Rightarrow> Inr None
              | Inr (Some (wfile, c)) \<Rightarrow> Inr (Some (wfile, f c)))"
    if "\<And>c. cond (f c) = cond c" for cond wfs
    using low that by (rule first_workflow_recase)
  show "lint_pass_run (recase f w) owner name t = lint_pass_run w owner name t"
    by (simp add: lint_pass_run_def gh_tree_recase await_def fw conds
        split: sum.splits option.splits)
  show "security_scan_run (recase f w) owner name t = security_scan_run w owner name t"
    by (simp add: security_scan_run_def gh_tree_recase await_def fw conds
        split: sum.splits option.splits)
  show "quality_gate_run (recase f w) owner name t = quality_gate_run w owner name t"
    by (simp add: quality_gate_run_def gh_tree_recase await_def fw conds Let_def
        split: sum.splits option.splits)
  show "auto_deploy_run (recase f w) owner name t = auto_deploy_run w owner name t"
    by (simp add: auto_deploy_run_def gh_tree_recase await_def fw conds
        split: sum.splits option.splits)
  show "multi_env_run (recase f w) owner name t = multi_env_run w owner name t"
    by (simp add: multi_env_run_def gh_tree_recase await_def fw conds
        split: sum.splits option.splits)
qed

lemma workflow_remote_requests:
  "gh_tree (workflow_remote c) owner name = Inr (Some [\<lparr>path = ''.github/workflows/ci.yml''\<rparr>])"
  "ghRaw (workflow_remote c) owner name ''.github/workflows/ci.yml'' = Inr (Some c)"
  by (simp_all add: workflow_remote_def gh_tree_def ghRaw_def with_files_def with_tree_def)

lemma ci_yml_is_workflow: "is_workflow \<lparr>path = ''.github/workflows/ci.yml''\<rparr>"
  by (simp add: is_workflow_def startsWith_def endsWith_def)

lemma lower_examples:
  "toLowerCase ''Docker Build'' = ''docker build''"
  "toLowerCase ''docker build'' = ''docker build''"
  "toLowerCase ''ESLint'' = ''eslint''"
  by (simp_all add: toLowerCase_def lower_char_def)

lemma docker_cond_examples:
  "docker_cond ''docker build''" "\<not> docker_cond ''Docker Build''"
  by (simp_all add: docker_cond_def startsWith_def)

lemma lint_cond_example: "lint_cond ''ESLint''"
  by (simp add: lint_cond_def lower_examples startsWith_def)

text \<open>
  C6 at its failing input. The contents "Docker Build" and "docker build" differ in
  letter case only; \<open>docker_builds\<close> passes on the second and fails on the first, since it
  tests the content as it is. \<open>lint_pass\<close>, which lowers the content first, passes on
  "ESLint".
\<close>

theorem docker_builds_is_case_sensitive:
  "toLowerCase ''Docker Build'' = toLowerCase ''docker build''
   \<and> docker_builds_run (workflow_remote ''docker build'') ''x'' ''y'' team_a
       = Inr \<lparr>pass = True, detail = ''Docker build in .github/workflows/ci.yml''\<rparr>
   \<and> docker_builds_run (workflow_remote ''Docker Build'') ''x'' ''y'' team_a
       = Inr \<lparr>pass = False, detail = ''No docker build step in CI''\<rparr>
   \<and> lint_pass_run (workflow_remote ''ESLint'') ''x'' ''y'' team_a
       = Inr \<lparr>pass = True, detail = ''Lint found in .github/workflows/ci.yml''\<rparr>"
proof -
  have a: "toLowerCase ''Docker Build'' = toLowerCase ''docker build''"
    by (simp only: lower_examples)
  have b: "docker_builds_run (workflow_remote ''docker build'') ''x'' ''y'' team_a
       = Inr \<lparr>pass = True, detail = ''Docker build in .github/workflows/ci.yml''\<rparr>"
    by (simp add: docker_builds_run_def workflow_remote_requests await_def ci_yml_is_workflow
        docker_cond_examples)
  have c: "docker_builds_run (workflow_remote ''Docker Build'') ''x'' ''y'' team_a
       = Inr \<lparr>pass = False, detail = ''No docker build step in CI''\<rparr>"
    by (simp add: docker_builds_run_def workflow_remote_requests await_def ci_yml_is_workflow
        docker_cond_examples)
  have d: "lint_pass_run (workflow_remote ''ESLint'') ''x'' ''y'' team_a
       = Inr \<lparr>pass = True, detail = ''Lint found in .github/workflows/ci.yml''\<rparr>"
    by (simp add: lint_pass_run_def workflow_remote_requests await_def ci_yml_is_workflow
        lint_cond_example)
  from a b c d show ?thesis by blast
qed

end
